theory Spec2Isabelle
  imports Complex_Main
begin

section \<open>Python values, objects and exceptions\<close>

text \<open>
  The hook of \<^verbatim>\<open>models/hooks/eval_hook.py\<close> works on dynamically typed values and on
  mutable objects reached through attribute chains. Values are a datatype; objects live
  in a store indexed by addresses, so that two attribute chains may or may not end in the
  same object. A tensor is represented by its contents, a list of 64-bit integers;
  \<^verbatim>\<open>clone()\<close> of a tensor is a tensor with the same contents. A finite float is
  represented by the real it denotes.
\<close>

type_synonym addr = nat

datatype pyval =
    PNone
  | PBool bool
  | PInt int
  | PFloat real
  | PStr string
  | PTensor "int list"
  | PTuple "pyval list"
  | PList "pyval list"
  | PRef addr

datatype error =
    AssertionError
  | AttributeError
  | IndexError
  | TypeError
  | UnboundLocalError
  | RuntimeError
  | External string

record pyobj =
  class_name :: string
  attrs :: "string \<rightharpoonup> pyval"
  items :: "string \<rightharpoonup> pyval"

type_synonym heap = "addr \<Rightarrow> pyobj"

text \<open>Attribute read \<^verbatim>\<open>v.name\<close>: only objects of the store carry the attributes used here.\<close>

fun getattr :: "heap \<Rightarrow> pyval \<Rightarrow> string \<Rightarrow> error + pyval" where
  "getattr h (PRef a) name =
     (case attrs (h a) name of None \<Rightarrow> Inl AttributeError | Some v \<Rightarrow> Inr v)"
| "getattr h _ name = Inl AttributeError"

text \<open>Attribute write \<^verbatim>\<open>v.name = x\<close>; \<open>put_attr\<close> is the store after the write.\<close>

definition put_attr :: "heap \<Rightarrow> addr \<Rightarrow> string \<Rightarrow> pyval \<Rightarrow> heap" where
  "put_attr h a name x = h(a := (h a)\<lparr>attrs := (attrs (h a))(name \<mapsto> x)\<rparr>)"

fun setattr :: "heap \<Rightarrow> pyval \<Rightarrow> string \<Rightarrow> pyval \<Rightarrow> error + heap" where
  "setattr h (PRef a) name x = Inr (put_attr h a name x)"
| "setattr h _ name x = Inl AttributeError"

text \<open>Item write \<^verbatim>\<open>v[key] = x\<close> on a dictionary object.\<close>

fun setitem :: "heap \<Rightarrow> pyval \<Rightarrow> string \<Rightarrow> pyval \<Rightarrow> error + heap" where
  "setitem h (PRef a) key x = Inr (h(a := (h a)\<lparr>items := (items (h a))(key \<mapsto> x)\<rparr>))"
| "setitem h _ key x = Inl TypeError"

text \<open>\<^verbatim>\<open>v.__class__.__name__\<close>, defined for every value.\<close>

fun class_of :: "heap \<Rightarrow> pyval \<Rightarrow> string" where
  "class_of h (PRef a) = class_name (h a)"
| "class_of h PNone = ''NoneType''"
| "class_of h (PBool b) = ''bool''"
| "class_of h (PInt i) = ''int''"
| "class_of h (PFloat r) = ''float''"
| "class_of h (PStr s) = ''str''"
| "class_of h (PTensor t) = ''Tensor''"
| "class_of h (PTuple xs) = ''tuple''"
| "class_of h (PList xs) = ''list''"

text \<open>
  \<^verbatim>\<open>bool(v)\<close>, the truth value a condition takes of \<open>v\<close>. A tensor with exactly one
  element has the truth value of that element; for any other tensor \<^verbatim>\<open>bool\<close> raises
  \<^verbatim>\<open>RuntimeError\<close>. The objects of the store are taken to define neither
  \<^verbatim>\<open>__bool__\<close> nor \<^verbatim>\<open>__len__\<close>.
\<close>

fun truthy :: "pyval \<Rightarrow> error + bool" where
  "truthy PNone = Inr False"
| "truthy (PBool b) = Inr b"
| "truthy (PInt i) = Inr (i \<noteq> 0)"
| "truthy (PFloat r) = Inr (r \<noteq> 0)"
| "truthy (PStr s) = Inr (s \<noteq> [])"
| "truthy (PTensor t) = (case t of [x] \<Rightarrow> Inr (x \<noteq> 0) | _ \<Rightarrow> Inl RuntimeError)"
| "truthy (PTuple xs) = Inr (xs \<noteq> [])"
| "truthy (PList xs) = Inr (xs \<noteq> [])"
| "truthy (PRef a) = Inr True"

text \<open>The number a numeric value denotes; \<^verbatim>\<open>bool\<close> is a subtype of \<^verbatim>\<open>int\<close>.\<close>

fun num_of :: "pyval \<Rightarrow> real option" where
  "num_of (PInt i) = Some (real_of_int i)"
| "num_of (PBool b) = Some (if b then 1 else 0)"
| "num_of (PFloat r) = Some r"
| "num_of _ = None"

text \<open>
  The truth value of \<^verbatim>\<open>v == n\<close> in a condition, where \<open>n\<close> is \<^verbatim>\<open>True\<close> (the number 1)
  or \<^verbatim>\<open>0\<close>. Numeric values compare by the number they denote. A tensor compares
  element by element and the result is a tensor, whose truth value exists only when it
  has exactly one element. Any other value is unequal to a number.
\<close>

fun py_eq_num :: "pyval \<Rightarrow> real \<Rightarrow> error + bool" where
  "py_eq_num (PTensor t) n =
     (case t of [x] \<Rightarrow> Inr (real_of_int x = n) | _ \<Rightarrow> Inl RuntimeError)"
| "py_eq_num v n = Inr (num_of v = Some n)"

text \<open>
  An operand of \<^verbatim>\<open>x < y\<close> as it is used at line 43, where \<open>x\<close> is \<open>progress + 1\<close>: a
  number, or a tensor. A comparison with a tensor yields a tensor, and the condition
  takes its truth value, which exists only when there is exactly one element. Any
  other operand next to a number or a tensor raises \<^verbatim>\<open>TypeError\<close>.
\<close>

fun operand :: "pyval \<Rightarrow> (error + real) option" where
  "operand (PTensor t) = Some (case t of [x] \<Rightarrow> Inr (real_of_int x) | _ \<Rightarrow> Inl RuntimeError)"
| "operand v = map_option Inr (num_of v)"

definition py_lt :: "pyval \<Rightarrow> pyval \<Rightarrow> error + bool" where
  "py_lt x y =
     (case operand x of
        None \<Rightarrow> Inl TypeError
      | Some a \<Rightarrow>
          (case operand y of
             None \<Rightarrow> Inl TypeError
           | Some b \<Rightarrow>
               (case a of
                  Inl e \<Rightarrow> Inl e
                | Inr ra \<Rightarrow> (case b of Inl e \<Rightarrow> Inl e | Inr rb \<Rightarrow> Inr (ra < rb)))))"

text \<open>
  A float sum is the exact sum rounded to the nearest binary64 value, ties to the even
  significand: values of magnitude in \<open>[2^e, 2^(e+1))\<close> are spaced \<open>2^(e-52)\<close> apart, and
  below \<open>2^-1022\<close> the spacing stays \<open>2^-1074\<close>. Adding 1 to a finite float stays below
  the overflow threshold.
\<close>

definition round_half_even :: "real \<Rightarrow> int" where
  "round_half_even y =
     (if y - of_int \<lfloor>y\<rfloor> < 1 / 2 then \<lfloor>y\<rfloor>
      else if 1 / 2 < y - of_int \<lfloor>y\<rfloor> then \<lfloor>y\<rfloor> + 1
      else if even \<lfloor>y\<rfloor> then \<lfloor>y\<rfloor>
      else \<lfloor>y\<rfloor> + 1)"

definition spacing :: "real \<Rightarrow> real" where
  "spacing x = 2 powr of_int (max \<lfloor>log 2 \<bar>x\<bar>\<rfloor> (- 1022) - 52)"

definition round_double :: "real \<Rightarrow> real" where
  "round_double x =
     (if x = 0 then 0 else spacing x * of_int (round_half_even (x / spacing x)))"

text \<open>The successor of a 64-bit integer, an element of a tensor: it wraps around.\<close>

definition succ_int64 :: "int \<Rightarrow> int" where
  "succ_int64 e = (e + 1 + 2 ^ 63) mod 2 ^ 64 - 2 ^ 63"

text \<open>
  \<^verbatim>\<open>x + 1\<close>: exact on integers, rounded on floats, element by element on a tensor.
\<close>

fun py_add1 :: "pyval \<Rightarrow> error + pyval" where
  "py_add1 (PInt i) = Inr (PInt (i + 1))"
| "py_add1 (PBool b) = Inr (PInt ((if b then 1 else 0) + 1))"
| "py_add1 (PFloat r) = Inr (PFloat (round_double (r + 1)))"
| "py_add1 (PTensor t) = Inr (PTensor (map succ_int64 t))"
| "py_add1 _ = Inl TypeError"

text \<open>\<^verbatim>\<open>xs[i]\<close> on a list or tuple: a negative index counts from the end.\<close>

definition list_getitem :: "'a list \<Rightarrow> int \<Rightarrow> error + 'a" where
  "list_getitem xs i =
     (if 0 \<le> i \<and> i < int (length xs) then Inr (xs ! nat i)
      else if i < 0 \<and> - int (length xs) \<le> i then Inr (xs ! nat (int (length xs) + i))
      else Inl IndexError)"

section \<open>The interval policy\<close>

text \<open>
  \<^verbatim>\<open>bisect.bisect\<close> of the standard library is \<^verbatim>\<open>bisect_right\<close> with \<open>lo = 0\<close> and
  \<open>hi = len(a)\<close>:
  \<^verbatim>\<open>while lo < hi: mid = (lo + hi) // 2; if x < a[mid]: hi = mid else: lo = mid + 1\<close>
  and \<^verbatim>\<open>return lo\<close>. The list is searched as it is, sorted or not.
\<close>

function bisect_right :: "pyval list \<Rightarrow> pyval \<Rightarrow> nat \<Rightarrow> nat \<Rightarrow> error + nat" where
  "bisect_right a x lo hi =
     (if lo < hi then
        (if (lo + hi) div 2 < length a then
           (case py_lt x (a ! ((lo + hi) div 2)) of
              Inl e \<Rightarrow> Inl e
            | Inr b \<Rightarrow>
                (if b then bisect_right a x lo ((lo + hi) div 2)
                 else bisect_right a x ((lo + hi) div 2 + 1) hi))
         else Inl IndexError)
      else Inr lo)"
  by pat_completeness auto
termination
  by (relation "measure (\<lambda>(a, x, lo, hi). hi - lo)") auto

declare bisect_right.simps [simp del]

definition bisect :: "pyval list \<Rightarrow> pyval \<Rightarrow> error + nat" where
  "bisect a x = bisect_right a x 0 (length a)"

text \<open>
  \<^verbatim>\<open>mmcv.is_list_of(seq, tuple)\<close> of the host framework: \<open>seq\<close> is a list and every item
  of it is a tuple.
\<close>

fun is_tuple :: "pyval \<Rightarrow> bool" where
  "is_tuple (PTuple xs) = True"
| "is_tuple _ = False"

fun is_list_of_tuple :: "pyval \<Rightarrow> bool" where
  "is_list_of_tuple (PList ds) = list_all is_tuple ds"
| "is_list_of_tuple _ = False"

text \<open>\<^verbatim>\<open>dynamic_interval[k]\<close> for one entry of the list.\<close>

fun entry_getitem :: "pyval \<Rightarrow> int \<Rightarrow> error + pyval" where
  "entry_getitem (PTuple xs) k = list_getitem xs k"
| "entry_getitem (PList xs) k = list_getitem xs k"
| "entry_getitem _ k = Inl TypeError"

text \<open>The comprehension \<^verbatim>\<open>[dynamic_interval[k] for dynamic_interval in dynamic_interval_list]\<close>.\<close>

fun comprehension :: "int \<Rightarrow> pyval list \<Rightarrow> error + pyval list" where
  "comprehension k [] = Inr []"
| "comprehension k (d # ds) =
     (case entry_getitem d k of
        Inl e \<Rightarrow> Inl e
      | Inr v \<Rightarrow> (case comprehension k ds of Inl e \<Rightarrow> Inl e | Inr vs \<Rightarrow> Inr (v # vs)))"

text \<open>
  \<^verbatim>\<open>_calc_dynamic_intervals(start_interval, dynamic_interval_list)\<close>, lines 19 to 28,
  with assertions enabled.
\<close>

definition calc_dynamic_intervals :: "pyval \<Rightarrow> pyval \<Rightarrow> error + (pyval list \<times> pyval list)" where
  "calc_dynamic_intervals start_interval dynamic_interval_list =
     (if \<not> is_list_of_tuple dynamic_interval_list then Inl AssertionError
      else
        (case dynamic_interval_list of
           PList ds \<Rightarrow>
             (case comprehension 0 ds of
                Inl e \<Rightarrow> Inl e
              | Inr ms \<Rightarrow>
                  (case comprehension 1 ds of
                     Inl e \<Rightarrow> Inl e
                   | Inr ivs \<Rightarrow> Inr (PInt 0 # ms, start_interval # ivs)))
         | _ \<Rightarrow> Inl AssertionError))"

text \<open>
  The fields of the hook object that this file reads or writes. \<open>latest_results\<close> is
  \<open>None\<close> as long as the attribute has not been assigned.
\<close>

record hook =
  interval :: pyval
  by_epoch :: bool
  use_dynamic_intervals :: bool
  dynamic_milestones :: "pyval list"
  dynamic_intervals :: "pyval list"
  broadcast_bn_buffer :: bool
  tmpdir :: pyval
  dataloader :: pyval
  gpu_collect :: pyval
  save_best :: pyval
  latest_results :: "pyval option"

text \<open>
  \<^verbatim>\<open>CustomDistEvalHook.__init__\<close>, lines 33 to 38. \<open>base\<close> is the object as the
  initialiser of the base class has left it (that call is the first statement and is
  the host framework's); \<open>dynamic_intervals_arg\<close> is the keyword argument, \<open>PNone\<close>
  by default.
\<close>

definition init :: "hook \<Rightarrow> pyval \<Rightarrow> error + hook" where
  "init base dynamic_intervals_arg =
     (if dynamic_intervals_arg \<noteq> PNone then
        (case calc_dynamic_intervals (interval base) dynamic_intervals_arg of
           Inl e \<Rightarrow> Inl e
         | Inr (ms, ivs) \<Rightarrow>
             Inr (base\<lparr>use_dynamic_intervals := True,
                        dynamic_milestones := ms,
                        dynamic_intervals := ivs\<rparr>))
      else Inr (base\<lparr>use_dynamic_intervals := False\<rparr>))"

text \<open>
  Lines 42 to 43 of \<open>_decide_interval\<close>: the progress is read from the runner and
  \<^verbatim>\<open>step = bisect.bisect(self.dynamic_milestones, progress + 1)\<close>.
\<close>

definition decide_step :: "heap \<Rightarrow> pyval \<Rightarrow> hook \<Rightarrow> error + nat" where
  "decide_step h runner self =
     (case getattr h runner (if by_epoch self then ''epoch'' else ''iter'') of
        Inl e \<Rightarrow> Inl e
      | Inr progress \<Rightarrow>
          (case py_add1 progress of
             Inl e \<Rightarrow> Inl e
           | Inr x \<Rightarrow> bisect (dynamic_milestones self) x))"

text \<open>
  \<^verbatim>\<open>CustomDistEvalHook._decide_interval\<close>, lines 40 to 45; line 45 is
  \<^verbatim>\<open>self.interval = self.dynamic_intervals[step - 1]\<close>.
\<close>

definition decide_interval :: "heap \<Rightarrow> pyval \<Rightarrow> hook \<Rightarrow> error + hook" where
  "decide_interval h runner self =
     (if use_dynamic_intervals self then
        (case decide_step h runner self of
           Inl e \<Rightarrow> Inl e
         | Inr step \<Rightarrow>
             (case list_getitem (dynamic_intervals self) (int step - 1) of
                Inl e \<Rightarrow> Inl e
              | Inr i \<Rightarrow> Inr (self\<lparr>interval := i\<rparr>)))
      else Inr self)"

text \<open>
  Interval resolution end to end: a hook is constructed over \<open>base\<close> with the user's
  list of (milestone, interval) pairs, then \<open>_decide_interval\<close> runs against a runner;
  the result is the interval the hook holds afterwards.
\<close>

definition user_list :: "(int \<times> int) list \<Rightarrow> pyval" where
  "user_list M = PList (map (\<lambda>(m, i). PTuple [PInt m, PInt i]) M)"

definition resolve :: "hook \<Rightarrow> pyval \<Rightarrow> heap \<Rightarrow> pyval \<Rightarrow> error + pyval" where
  "resolve base dynamic_intervals_arg h runner =
     (case init base dynamic_intervals_arg of
        Inl e \<Rightarrow> Inl e
      | Inr self \<Rightarrow>
          (case decide_interval h runner self of
             Inl e \<Rightarrow> Inl e
           | Inr self' \<Rightarrow> Inr (interval self')))"

section \<open>The world the hook runs in\<close>

text \<open>
  \<open>_do_evaluate\<close> mutates objects, assigns to the hook, and calls into the host
  framework. The state is the object store, the hook's own fields, and the sequence of
  calls made to the framework so far. An exception leaves the state as it was at the
  point of the raise, so every computation returns a result and a state.
\<close>

datatype event =
    Broadcast pyval int
  | MultiGpuTest pyval pyval pyval pyval
  | Print string
  | Evaluate pyval
  | SaveCkpt pyval

record world =
  heap :: heap
  hook_of :: hook
  trace :: "event list"

type_synonym 'a prog = "world \<Rightarrow> (error + 'a) \<times> world"

definition ret :: "'a \<Rightarrow> 'a prog" where
  "ret x w = (Inr x, w)"

definition raise :: "error \<Rightarrow> 'a prog" where
  "raise e w = (Inl e, w)"

definition then_do :: "'a prog \<Rightarrow> ('a \<Rightarrow> 'b prog) \<Rightarrow> 'b prog" where
  "then_do m f w = (case m w of (Inl e, w') \<Rightarrow> (Inl e, w') | (Inr x, w') \<Rightarrow> f x w')"

definition reading :: "(heap \<Rightarrow> error + 'a) \<Rightarrow> 'a prog" where
  "reading f w = (f (heap w), w)"

definition writing :: "(heap \<Rightarrow> error + heap) \<Rightarrow> unit prog" where
  "writing f w = (case f (heap w) of Inl e \<Rightarrow> (Inl e, w) | Inr h' \<Rightarrow> (Inr (), w\<lparr>heap := h'\<rparr>))"

definition calling :: "(hook \<Rightarrow> heap \<Rightarrow> (error + 'a) \<times> heap) \<Rightarrow> 'a prog" where
  "calling f w = (case f (hook_of w) (heap w) of (r, h') \<Rightarrow> (r, w\<lparr>heap := h'\<rparr>))"

definition emit :: "event \<Rightarrow> unit prog" where
  "emit ev w = (Inr (), w\<lparr>trace := trace w @ [ev]\<rparr>)"

text \<open>
  What the host framework and the rest of the repository provide. \<open>is_parallel\<close> is
  \<^verbatim>\<open>.utils.is_parallel\<close>, \<open>is_BatchNorm\<close> the test \<^verbatim>\<open>isinstance(module, _BatchNorm)\<close>,
  \<open>named_modules\<close> the method of the model, \<open>dist_broadcast\<close> the collective (it
  returns the contents the tensor holds afterwards), \<open>should_evaluate\<close>, \<open>evaluate\<close>
  and \<open>save_ckpt\<close> the methods of the base class, \<open>multi_gpu_test\<close> the distributed
  test runner, \<open>len_of\<close> the builtin \<^verbatim>\<open>len\<close>. The three that run model or framework
  code take the store and return it changed.
\<close>

record collab =
  is_parallel :: "heap \<Rightarrow> pyval \<Rightarrow> bool"
  is_BatchNorm :: "heap \<Rightarrow> pyval \<Rightarrow> bool"
  named_modules :: "heap \<Rightarrow> pyval \<Rightarrow> error + (string \<times> pyval) list"
  dist_broadcast :: "pyval \<Rightarrow> int \<Rightarrow> error + pyval"
  should_evaluate :: "hook \<Rightarrow> heap \<Rightarrow> pyval \<Rightarrow> bool"
  multi_gpu_test :: "heap \<Rightarrow> pyval \<Rightarrow> pyval \<Rightarrow> pyval \<Rightarrow> pyval \<Rightarrow> (error + pyval) \<times> heap"
  evaluate :: "hook \<Rightarrow> heap \<Rightarrow> pyval \<Rightarrow> pyval \<Rightarrow> (error + pyval) \<times> heap"
  save_ckpt :: "hook \<Rightarrow> heap \<Rightarrow> pyval \<Rightarrow> pyval \<Rightarrow> (error + unit) \<times> heap"
  len_of :: "heap \<Rightarrow> pyval \<Rightarrow> error + pyval"

section \<open>Attribute chains\<close>

text \<open>\<^verbatim>\<open>v.n1.n2...\<close>: the attributes are read left to right, the first missing one raises.\<close>

fun getattrs :: "heap \<Rightarrow> pyval \<Rightarrow> string list \<Rightarrow> error + pyval" where
  "getattrs h v [] = Inr v"
| "getattrs h v (n # ns) =
     (case getattr h v n of Inl e \<Rightarrow> Inl e | Inr v' \<Rightarrow> getattrs h v' ns)"

text \<open>\<^verbatim>\<open>v.n1.n2... .name = x\<close>.\<close>

definition set_path :: "heap \<Rightarrow> pyval \<Rightarrow> string list \<Rightarrow> string \<Rightarrow> pyval \<Rightarrow> error + heap" where
  "set_path h v path name x =
     (case getattrs h v path of Inl e \<Rightarrow> Inl e | Inr obj \<Rightarrow> setattr h obj name x)"

text \<open>
  \<^verbatim>\<open>t.clone()\<close>: a tensor yields a tensor of the same contents; \<^verbatim>\<open>None\<close> and the
  other plain values have no such method, and the objects of the store are taken to
  have none either.
\<close>

fun py_clone :: "pyval \<Rightarrow> error + pyval" where
  "py_clone (PTensor t) = Inr (PTensor t)"
| "py_clone _ = Inl AttributeError"

text \<open>
  \<^verbatim>\<open>posixpath.join(a, b)\<close> for a string \<open>b\<close>.
\<close>

fun osp_join :: "pyval \<Rightarrow> string \<Rightarrow> error + pyval" where
  "osp_join (PStr a) b =
     (if b \<noteq> [] \<and> hd b = CHR ''/'' then Inr (PStr b)
      else if a = [] \<or> last a = CHR ''/'' then Inr (PStr (a @ b))
      else Inr (PStr (a @ ''/'' @ b)))"
| "osp_join _ b = Inl TypeError"

section \<open>The evaluation hook\<close>

text \<open>
  \<open>_do_evaluate\<close> is translated block by block, in the order of the source. The
  import of line 94 is taken to succeed.
\<close>

text \<open>
  The condition of lines 63 to 64 and again of lines 113 to 114:
  \<^verbatim>\<open>runner.model.module.__class__.__name__ == "TemporalOcc" and
  runner.model.module.pts_bbox_head.use_history_flag == True\<close>.
  The right operand is evaluated only when the left one holds.
\<close>

definition recognized :: "heap \<Rightarrow> pyval \<Rightarrow> error + bool" where
  "recognized h runner =
     (case getattrs h runner [''model'', ''module''] of
        Inl e \<Rightarrow> Inl e
      | Inr m \<Rightarrow>
          (if class_of h m = ''TemporalOcc'' then
             (case getattrs h runner [''model'', ''module'', ''pts_bbox_head'', ''use_history_flag''] of
                Inl e \<Rightarrow> Inl e
              | Inr flag \<Rightarrow> py_eq_num flag 1)
           else Inr False))"

text \<open>
  The four local variables of \<open>_do_evaluate\<close> that carry the snapshot. A local that no
  assignment has reached is unbound (\<open>None\<close> here); reading it raises.
\<close>

record locals =
  history_occ :: "pyval option"
  history_seq_ids :: "pyval option"
  history_forward_augs :: "pyval option"
  history_sweep_time :: "pyval option"

definition unbound :: locals where
  "unbound = \<lparr>history_occ = None, history_seq_ids = None,
              history_forward_augs = None, history_sweep_time = None\<rparr>"

definition local_var :: "pyval option \<Rightarrow> pyval prog" where
  "local_var v = (case v of None \<Rightarrow> raise UnboundLocalError | Some x \<Rightarrow> ret x)"

text \<open>\<^verbatim>\<open>runner.model.module.pts_bbox_head.<name>.clone()\<close>, the right-hand sides of lines 67 to 70.\<close>

definition cloned :: "heap \<Rightarrow> pyval \<Rightarrow> string \<Rightarrow> error + pyval" where
  "cloned h runner name =
     (case getattrs h runner [''model'', ''module'', ''pts_bbox_head'', name] of
        Inl e \<Rightarrow> Inl e
      | Inr v \<Rightarrow> py_clone v)"

text \<open>Lines 66 to 72: the snapshot of the primary model's history.\<close>

definition take_snapshot :: "pyval \<Rightarrow> locals prog" where
  "take_snapshot runner =
     then_do (reading (\<lambda>h. getattrs h runner [''model'', ''module'', ''pts_bbox_head'', ''history_occ''])) (\<lambda>occ.
     if occ \<noteq> PNone then
       then_do (reading (\<lambda>h. cloned h runner ''history_occ'')) (\<lambda>a.
       then_do (reading (\<lambda>h. cloned h runner ''history_seq_ids'')) (\<lambda>b.
       then_do (reading (\<lambda>h. cloned h runner ''history_forward_augs'')) (\<lambda>c.
       then_do (reading (\<lambda>h. cloned h runner ''history_sweep_time'')) (\<lambda>d.
       ret \<lparr>history_occ = Some a, history_seq_ids = Some b,
            history_forward_augs = Some c, history_sweep_time = Some d\<rparr>))))
     else ret (unbound\<lparr>history_occ := Some PNone\<rparr>))"

text \<open>Lines 63 to 78: snapshot and clearing on entry.\<close>

definition save_and_clear_history :: "collab \<Rightarrow> pyval \<Rightarrow> locals prog" where
  "save_and_clear_history c runner =
     then_do (reading (\<lambda>h. recognized h runner)) (\<lambda>is_recognized.
     if is_recognized then
       then_do (reading (\<lambda>h. getattr h runner ''model'')) (\<lambda>model.
       then_do (reading (\<lambda>h. Inr (is_parallel c h model))) (\<lambda>parallel.
       if parallel then
         then_do (take_snapshot runner) (\<lambda>loc.
         then_do (writing (\<lambda>h. set_path h runner
                    [''model'', ''module'', ''pts_bbox_head''] ''history_occ'' PNone)) (\<lambda>_.
         then_do (writing (\<lambda>h. set_path h runner
                    [''ema_model'', ''ema_model'', ''module'', ''pts_bbox_head''] ''history_occ'' PNone)) (\<lambda>_.
         ret loc)))
       else
         then_do (writing (\<lambda>h. set_path h runner
                    [''ema_model'', ''ema_model'', ''pts_bbox_head''] ''history_occ'' PNone)) (\<lambda>_.
         then_do (writing (\<lambda>h. set_path h runner
                    [''model'', ''pts_bbox_head''] ''history_occ'' PNone)) (\<lambda>_.
         ret unbound))))
     else ret unbound)"

text \<open>
  \<^verbatim>\<open>dist.broadcast(module.<name>, 0)\<close>: the buffer is read, the collective runs, and the
  tensor holds the received contents afterwards.
\<close>

definition broadcast_buffer :: "collab \<Rightarrow> pyval \<Rightarrow> string \<Rightarrow> unit prog" where
  "broadcast_buffer c submodule name =
     then_do (reading (\<lambda>h. getattr h submodule name)) (\<lambda>buf.
     then_do (emit (Broadcast buf 0)) (\<lambda>_.
     then_do (reading (\<lambda>h. dist_broadcast c buf 0)) (\<lambda>buf'.
     writing (\<lambda>h. setattr h submodule name buf'))))"

text \<open>Lines 81 to 85, the loop over \<^verbatim>\<open>model.named_modules()\<close>.\<close>

fun broadcast_loop :: "collab \<Rightarrow> (string \<times> pyval) list \<Rightarrow> unit prog" where
  "broadcast_loop c [] = ret ()"
| "broadcast_loop c ((name, submodule) # rest) =
     then_do (reading (\<lambda>h.
        if is_BatchNorm c h submodule then
          (case getattr h submodule ''track_running_stats'' of
             Inl e \<Rightarrow> Inl e
           | Inr t \<Rightarrow> truthy t)
        else Inr False)) (\<lambda>tracked.
     then_do (if tracked then
                then_do (broadcast_buffer c submodule ''running_var'') (\<lambda>_.
                broadcast_buffer c submodule ''running_mean'')
              else ret ()) (\<lambda>_.
     broadcast_loop c rest))"

text \<open>Lines 79 to 85.\<close>

definition broadcast_bn :: "collab \<Rightarrow> pyval \<Rightarrow> unit prog" where
  "broadcast_bn c runner w =
     (if broadcast_bn_buffer (hook_of w) then
        then_do (reading (\<lambda>h. getattr h runner ''model'')) (\<lambda>model.
        then_do (reading (\<lambda>h. named_modules c h model)) (\<lambda>modules.
        broadcast_loop c modules)) w
      else ret () w)"

text \<open>Lines 90 to 92.\<close>

definition resolve_tmpdir :: "pyval \<Rightarrow> pyval prog" where
  "resolve_tmpdir runner w =
     (if tmpdir (hook_of w) = PNone then
        then_do (reading (\<lambda>h. getattr h runner ''work_dir'')) (\<lambda>work_dir.
        reading (\<lambda>h. osp_join work_dir ''.eval_hook'')) w
      else ret (tmpdir (hook_of w)) w)"

text \<open>Lines 97 to 102: the distributed test runner is given the shadow model.\<close>

definition run_test :: "collab \<Rightarrow> pyval \<Rightarrow> pyval \<Rightarrow> pyval prog" where
  "run_test c runner tmp =
     then_do (reading (\<lambda>h. getattrs h runner [''ema_model'', ''ema_model''])) (\<lambda>shadow.
     then_do (\<lambda>w. emit (MultiGpuTest shadow (dataloader (hook_of w)) tmp (gpu_collect (hook_of w))) w) (\<lambda>_.
     then_do (calling (\<lambda>s h. multi_gpu_test c h shadow (dataloader s) tmp (gpu_collect s))) (\<lambda>results.
     then_do (\<lambda>w. (Inr (), w\<lparr>hook_of := (hook_of w)\<lparr>latest_results := Some results\<rparr>\<rparr>)) (\<lambda>_.
     ret results))))"

text \<open>
  Lines 104 to 111, the part only rank 0 runs. In \<^verbatim>\<open>self.save_best and key_score\<close>
  the truth value of the score is taken only when that of \<open>save_best\<close> holds.
\<close>

definition rank0_part :: "collab \<Rightarrow> pyval \<Rightarrow> pyval \<Rightarrow> unit prog" where
  "rank0_part c runner results =
     then_do (emit (Print [CHR 0x0A])) (\<lambda>_.
     then_do (\<lambda>w. reading (\<lambda>h. len_of c h (dataloader (hook_of w))) w) (\<lambda>n.
     then_do (reading (\<lambda>h. getattrs h runner [''log_buffer'', ''output''])) (\<lambda>output.
     then_do (writing (\<lambda>h. setitem h output ''eval_iter_num'' n)) (\<lambda>_.
     then_do (emit (Evaluate results)) (\<lambda>_.
     then_do (calling (\<lambda>s h. evaluate c s h runner results)) (\<lambda>key_score.
     then_do (\<lambda>w. reading (\<lambda>h. truthy (save_best (hook_of w))) w) (\<lambda>configured.
     then_do (if configured then reading (\<lambda>h. truthy key_score) else ret False) (\<lambda>wanted.
     if wanted then
       then_do (emit (SaveCkpt key_score)) (\<lambda>_.
       calling (\<lambda>s h. save_ckpt c s h runner key_score))
     else ret ()))))))))"

text \<open>
  Lines 79 to 111. The result tells whether the function returned at line 88 or
  control reached line 113.
\<close>

datatype flow = Returned | Reached_restore

definition guarded_evaluation :: "collab \<Rightarrow> pyval \<Rightarrow> flow prog" where
  "guarded_evaluation c runner =
     then_do (broadcast_bn c runner) (\<lambda>_.
     (\<lambda>w. if \<not> should_evaluate c (hook_of w) (heap w) runner then ret Returned w
           else
             then_do (resolve_tmpdir runner) (\<lambda>tmp.
             then_do (run_test c runner tmp) (\<lambda>results.
             then_do (reading (\<lambda>h. getattr h runner ''rank'')) (\<lambda>rank.
             then_do (reading (\<lambda>h. py_eq_num rank 0)) (\<lambda>coordinating.
             then_do (if coordinating then rank0_part c runner results else ret ()) (\<lambda>_.
             ret Reached_restore))))) w))"

text \<open>
  \<^verbatim>\<open>runner.model.module.pts_bbox_head.<name> = <local>.clone()\<close>, lines 117 to 120: the
  right-hand side is evaluated first.
\<close>

definition restore_field :: "pyval \<Rightarrow> string \<Rightarrow> pyval option \<Rightarrow> unit prog" where
  "restore_field runner name var =
     then_do (local_var var) (\<lambda>v.
     then_do (reading (\<lambda>h. py_clone v)) (\<lambda>copy.
     writing (\<lambda>h. set_path h runner [''model'', ''module'', ''pts_bbox_head''] name copy)))"

text \<open>Lines 113 to 126.\<close>

definition restore_history :: "collab \<Rightarrow> pyval \<Rightarrow> locals \<Rightarrow> unit prog" where
  "restore_history c runner loc =
     then_do (reading (\<lambda>h. recognized h runner)) (\<lambda>is_recognized.
     if is_recognized then
       then_do (reading (\<lambda>h. getattr h runner ''model'')) (\<lambda>model.
       then_do (reading (\<lambda>h. Inr (is_parallel c h model))) (\<lambda>parallel.
       if parallel then
         then_do (local_var (history_occ loc)) (\<lambda>occ.
         then_do (if occ \<noteq> PNone then
                    then_do (restore_field runner ''history_occ'' (history_occ loc)) (\<lambda>_.
                    then_do (restore_field runner ''history_seq_ids'' (history_seq_ids loc)) (\<lambda>_.
                    then_do (restore_field runner ''history_forward_augs'' (history_forward_augs loc)) (\<lambda>_.
                    restore_field runner ''history_sweep_time'' (history_sweep_time loc))))
                  else writing (\<lambda>h. set_path h runner
                         [''model'', ''module'', ''pts_bbox_head''] ''history_occ'' PNone)) (\<lambda>_.
         writing (\<lambda>h. set_path h runner
           [''ema_model'', ''ema_model'', ''module'', ''pts_bbox_head''] ''history_occ'' PNone)))
       else
         then_do (writing (\<lambda>h. set_path h runner
                    [''model'', ''pts_bbox_head''] ''history_occ'' PNone)) (\<lambda>_.
         writing (\<lambda>h. set_path h runner
           [''ema_model'', ''ema_model'', ''pts_bbox_head''] ''history_occ'' PNone))))
     else ret ())"

text \<open>\<^verbatim>\<open>CustomDistEvalHook._do_evaluate\<close>, lines 56 to 126.\<close>

definition do_evaluate :: "collab \<Rightarrow> pyval \<Rightarrow> unit prog" where
  "do_evaluate c runner =
     then_do (save_and_clear_history c runner) (\<lambda>loc.
     then_do (guarded_evaluation c runner) (\<lambda>fl.
     (case fl of
        Returned \<Rightarrow> ret ()
      | Reached_restore \<Rightarrow> restore_history c runner loc)))"

section \<open>Reference notions and example inputs\<close>

text \<open>
  The interval policy in the words of its description: the interval \<open>v\<close> belongs to the
  greatest milestone of the table \<open>T\<close> that does not exceed \<open>x\<close>.
\<close>

definition greatest_milestone_interval :: "(int \<times> int) list \<Rightarrow> int \<Rightarrow> int \<Rightarrow> bool" where
  "greatest_milestone_interval T x v =
     (\<exists>(m, i) \<in> set T. i = v \<and> m \<le> x \<and> (\<forall>(m', i') \<in> set T. m' \<le> x \<longrightarrow> m' \<le> m))"

text \<open>A hook as the base class leaves it, with base interval 5, counting epochs.\<close>

definition example_hook :: hook where
  "example_hook =
     \<lparr>interval = PInt 5, by_epoch = True, use_dynamic_intervals = False,
      dynamic_milestones = [], dynamic_intervals = [], broadcast_bn_buffer = False,
      tmpdir = PNone, dataloader = PRef 10, gpu_collect = PBool False,
      save_best = PStr ''auto'', latest_results = None\<rparr>"

text \<open>A store in which every object, the runner among them, reports progress \<open>p\<close>.\<close>

definition progress_heap :: "int \<Rightarrow> heap" where
  "progress_heap p =
     (\<lambda>a. \<lparr>class_name = ''EpochBasedRunner'',
           attrs = [''epoch'' \<mapsto> PInt p, ''iter'' \<mapsto> PInt p],
           items = Map.empty\<rparr>)"

text \<open>
  A store for a distributed run: the runner (0) holds the wrapped primary model
  (12, 2, head 3), the shadow model behind its averaging object (4, 5, 6, head 7), the
  log buffer (8) with its output dictionary (9), and one batch-norm layer (11). Both
  heads carry history tensors.
\<close>

definition mk_obj :: "string \<Rightarrow> (string \<times> pyval) list \<Rightarrow> pyobj" where
  "mk_obj cn as = \<lparr>class_name = cn, attrs = map_of as, items = Map.empty\<rparr>"

definition example_heap :: heap where
  "example_heap =
     (\<lambda>a. mk_obj ''object'' [])
     (0 := mk_obj ''EpochBasedRunner''
             [(''model'', PRef 12), (''ema_model'', PRef 4), (''rank'', PInt 0),
              (''epoch'', PInt 3), (''iter'', PInt 300), (''work_dir'', PStr ''work''),
              (''log_buffer'', PRef 8)],
      12 := mk_obj ''MMDistributedDataParallel'' [(''module'', PRef 2)],
      2 := mk_obj ''TemporalOcc'' [(''pts_bbox_head'', PRef 3)],
      3 := mk_obj ''OccHead''
             [(''use_history_flag'', PBool True), (''history_occ'', PTensor [1, 2]),
              (''history_seq_ids'', PTensor [3]), (''history_forward_augs'', PTensor [4]),
              (''history_sweep_time'', PTensor [5])],
      4 := mk_obj ''ModelEMA'' [(''ema_model'', PRef 5)],
      5 := mk_obj ''MMDistributedDataParallel'' [(''module'', PRef 6)],
      6 := mk_obj ''TemporalOcc'' [(''pts_bbox_head'', PRef 7)],
      7 := mk_obj ''OccHead''
             [(''use_history_flag'', PBool True), (''history_occ'', PTensor [6]),
              (''history_seq_ids'', PTensor [7]), (''history_forward_augs'', PTensor [8]),
              (''history_sweep_time'', PTensor [9])],
      8 := mk_obj ''LogBuffer'' [(''output'', PRef 9)],
      9 := mk_obj ''dict'' [],
      11 := mk_obj ''BatchNorm2d''
             [(''track_running_stats'', PBool True), (''running_var'', PTensor [1]),
              (''running_mean'', PTensor [0])])"

text \<open>
  Collaborators for the examples: the trigger answers \<open>trig\<close>, the test runner leaves
  a history tensor on the shadow head and returns or raises \<open>res\<close>, the metric is
  \<open>score\<close>; the model counts as parallel by its wrapper class.
\<close>

definition example_collab :: "bool \<Rightarrow> error + pyval \<Rightarrow> error + pyval \<Rightarrow> collab" where
  "example_collab trig res score =
     \<lparr>is_parallel = (\<lambda>h v. class_of h v = ''MMDistributedDataParallel''),
      is_BatchNorm = (\<lambda>h v. class_of h v = ''BatchNorm2d''),
      named_modules = (\<lambda>h v. Inr [(''module'', PRef 2), (''module.bn'', PRef 11)]),
      dist_broadcast = (\<lambda>t src. Inr t),
      should_evaluate = (\<lambda>s h r. trig),
      multi_gpu_test = (\<lambda>h m d t g. (res, put_attr h 7 ''history_occ'' (PTensor [42]))),
      evaluate = (\<lambda>s h r x. (score, h)),
      save_ckpt = (\<lambda>s h r x. (Inr (), h)),
      len_of = (\<lambda>h v. Inr (PInt 4))\<rparr>"

definition example_world :: world where
  "example_world =
     \<lparr>heap = example_heap, hook_of = example_hook\<lparr>broadcast_bn_buffer := True\<rparr>, trace = []\<rparr>"

text \<open>
  The example store with a primary \<open>TemporalOcc\<close> module that has no \<open>pts_bbox_head\<close>,
  and the example store with a primary head that has the flag but no history fields.
\<close>

definition headless_heap :: heap where
  "headless_heap = example_heap (2 := mk_obj ''TemporalOcc'' [])"

definition bare_head_heap :: heap where
  "bare_head_heap = example_heap (3 := mk_obj ''OccHead'' [(''use_history_flag'', PBool True)])"

text \<open>The example store with a wrapped model of another family.\<close>

definition other_family_heap :: heap where
  "other_family_heap = example_heap (2 := mk_obj ''BEVDet'' [(''pts_bbox_head'', PRef 3)])"

text \<open>
  The example store with both models behind a wrapper that is not a parallel one and
  that offers \<open>module\<close> and \<open>pts_bbox_head\<close> alike.
\<close>

definition plain_heap :: heap where
  "plain_heap =
     example_heap
     (12 := mk_obj ''Wrapper'' [(''module'', PRef 2), (''pts_bbox_head'', PRef 3)],
      5 := mk_obj ''Wrapper'' [(''module'', PRef 6), (''pts_bbox_head'', PRef 7)])"

text \<open>
  The heads that lines 74 to 78 and 117 to 126 address, by the answer of \<open>is_parallel\<close>.
\<close>

definition primary_head_path :: "bool \<Rightarrow> string list" where
  "primary_head_path parallel =
     (if parallel then [''model'', ''module'', ''pts_bbox_head''] else [''model'', ''pts_bbox_head''])"

definition shadow_head_path :: "bool \<Rightarrow> string list" where
  "shadow_head_path parallel =
     (if parallel then [''ema_model'', ''ema_model'', ''module'', ''pts_bbox_head'']
      else [''ema_model'', ''ema_model'', ''pts_bbox_head''])"

section \<open>Frame conditions\<close>

text \<open>
  Two stores agree on a set of attribute names when every object has the same class in
  both and the same value (or absence) for each of these names.
\<close>

definition same_on :: "string set \<Rightarrow> heap \<Rightarrow> heap \<Rightarrow> bool" where
  "same_on N h h' =
     (\<forall>a. class_name (h' a) = class_name (h a) \<and> (\<forall>n \<in> N. attrs (h' a) n = attrs (h a) n))"

text \<open>The attributes along which \<open>_do_evaluate\<close> finds the models and recognises them.\<close>

definition link_names :: "string set" where
  "link_names = {''model'', ''module'', ''pts_bbox_head'', ''ema_model'', ''use_history_flag''}"

text \<open>
  A relation between stores that every call into the framework respects, whatever the
  arguments. It is used with \<open>same_on link_names\<close> (the framework does not re-link
  or re-class the models) and with the preservation of a single attribute of a single
  object.
\<close>

definition calls_respect :: "(heap \<Rightarrow> heap \<Rightarrow> bool) \<Rightarrow> collab \<Rightarrow> bool" where
  "calls_respect Q c =
     ((\<forall>h m d t g. Q h (snd (multi_gpu_test c h m d t g))) \<and>
      (\<forall>s h r x. Q h (snd (evaluate c s h r x))) \<and>
      (\<forall>s h r x. Q h (snd (save_ckpt c s h r x))))"

text \<open>Every run of a computation relates its initial and its final state by \<open>R\<close>.\<close>

definition frames :: "(world \<Rightarrow> world \<Rightarrow> bool) \<Rightarrow> 'a prog \<Rightarrow> bool" where
  "frames R m = (\<forall>w. R w (snd (m w)))"



section \<open>The interval policy: facts\<close>

lemma py_lt_ints [simp]: "py_lt (PInt x) (PInt y) = Inr (x < y)"
  by (simp add: py_lt_def)

text \<open>
  Float sums round as binary64 does: \<open>1e16 + 1\<close> is \<open>1e16\<close>, since the neighbours of
  \<open>1e16\<close> are 2 apart and the tie goes to the even significand, while \<open>2.0 + 1\<close> is exact.
\<close>

lemma round_double_tie: "round_double (10000000000000000 + 1) = 10000000000000000"
proof -
  have "(2::real) powr (of_int 53) \<le> 10000000000000001 \<and>
        (10000000000000001::real) < 2 powr (of_int (53 + 1))"
    by simp
  then have "\<lfloor>log 2 (10000000000000001::real)\<rfloor> = 53"
    by (subst floor_log_eq_powr_iff) simp_all
  then have s: "spacing 10000000000000001 = 2"
    by (simp add: spacing_def)
  have f: "\<lfloor>(10000000000000001::real) / 2\<rfloor> = 5000000000000000"
    by (simp add: floor_eq_iff)
  have "round_half_even (10000000000000001 / 2) = 5000000000000000"
    unfolding round_half_even_def f by simp
  then show ?thesis
    by (simp add: round_double_def s)
qed

lemma py_add1_float_examples:
  "py_add1 (PFloat 10000000000000000) = Inr (PFloat 10000000000000000)"
  "py_add1 (PFloat 2) = Inr (PFloat 3)"
proof -
  show "py_add1 (PFloat 10000000000000000) = Inr (PFloat 10000000000000000)"
    using round_double_tie by simp
  have "\<lfloor>log 2 (3::real)\<rfloor> = 1"
    by (subst floor_log_eq_powr_iff) simp_all
  then have s: "spacing 3 = 2 powr (- 51)" by (simp add: spacing_def)
  have "(3::real) / 2 powr (- 51) = 3 * 2 ^ 51"
    by (simp add: powr_minus field_simps)
  then have "round_half_even (3 / 2 powr (- 51)) = 3 * 2 ^ 51"
    by (simp add: round_half_even_def)
  then have "round_double 3 = 3"
    by (simp add: round_double_def s powr_minus)
  then show "py_add1 (PFloat 2) = Inr (PFloat 3)" by simp
qed

lemma comprehension_user_fst:
  "comprehension 0 (map (\<lambda>(m, i). PTuple [PInt m, PInt i]) M) = Inr (map (\<lambda>(m, i). PInt m) M)"
  by (induction M) (auto simp: list_getitem_def)

lemma comprehension_user_snd:
  "comprehension 1 (map (\<lambda>(m, i). PTuple [PInt m, PInt i]) M) = Inr (map (\<lambda>(m, i). PInt i) M)"
  by (induction M) (auto simp: list_getitem_def)

lemma is_list_of_tuple_user: "is_list_of_tuple (user_list M)"
  by (induction M) (auto simp: user_list_def)

lemma init_user_list:
  "init base (user_list M) =
     Inr (base\<lparr>use_dynamic_intervals := True,
                dynamic_milestones := map PInt (0 # map fst M),
                dynamic_intervals := interval base # map PInt (map snd M)\<rparr>)"
proof -
  have a: "map (\<lambda>(m, i). PInt m) M = map PInt (map fst M)" by (induction M) auto
  have b: "map (\<lambda>(m, i). PInt i) M = map PInt (map snd M)" by (induction M) auto
  have c: "user_list M \<noteq> PNone" by (simp add: user_list_def)
  have "calc_dynamic_intervals (interval base) (user_list M)
        = Inr (PInt 0 # map PInt (map fst M), interval base # map PInt (map snd M))"
    using is_list_of_tuple_user [of M]
    by (simp add: calc_dynamic_intervals_def user_list_def comprehension_user_fst
        comprehension_user_snd a b)
  then show ?thesis using c by (simp add: init_def)
qed

lemma bisect_right_ints_bounds:
  "hi \<le> length ms \<Longrightarrow> lo \<le> hi \<Longrightarrow>
   \<exists>r. bisect_right (map PInt ms) (PInt x) lo hi = Inr r \<and> lo \<le> r \<and> r \<le> hi"
proof (induction "map PInt ms" "PInt x" lo hi rule: bisect_right.induct)
  case (1 lo hi)
  show ?case
  proof (cases "lo < hi")
    case False
    then show ?thesis using "1.prems" by (subst bisect_right.simps) simp
  next
    case True
    let ?mid = "(lo + hi) div 2"
    have mid: "?mid < length ms" "lo \<le> ?mid" "?mid < hi" using True "1.prems" by auto
    show ?thesis
    proof (cases "x < ms ! ?mid")
      case lt: True
      have "\<exists>r. bisect_right (map PInt ms) (PInt x) lo ?mid = Inr r \<and> lo \<le> r \<and> r \<le> ?mid"
        using "1.hyps"(1) [of True] True mid lt "1.prems" by simp
      then show ?thesis using True mid lt by (subst bisect_right.simps) auto
    next
      case ge: False
      have "\<exists>r. bisect_right (map PInt ms) (PInt x) (?mid + 1) hi = Inr r \<and> ?mid + 1 \<le> r \<and> r \<le> hi"
        using "1.hyps"(2) [of False] True mid ge "1.prems" by simp
      then show ?thesis using True mid ge by (subst bisect_right.simps) auto
    qed
  qed
qed


lemma bisect_right_ints_stop:
  "\<not> lo < hi \<Longrightarrow> bisect_right (map PInt ms) (PInt x) lo hi = Inr lo"
  by (subst bisect_right.simps) simp

lemma bisect_right_ints_step:
  "lo < hi \<Longrightarrow> hi \<le> length ms \<Longrightarrow>
   bisect_right (map PInt ms) (PInt x) lo hi =
     (if x < ms ! ((lo + hi) div 2)
      then bisect_right (map PInt ms) (PInt x) lo ((lo + hi) div 2)
      else bisect_right (map PInt ms) (PInt x) ((lo + hi) div 2 + 1) hi)"
  by (subst bisect_right.simps) auto

lemma bisect_right_ints_mono:
  "x \<le> y \<Longrightarrow> hi \<le> length ms \<Longrightarrow> lo \<le> hi \<Longrightarrow>
   bisect_right (map PInt ms) (PInt x) lo hi = Inr r \<Longrightarrow>
   bisect_right (map PInt ms) (PInt y) lo hi = Inr s \<Longrightarrow> r \<le> s"
proof (induction "hi - lo" arbitrary: lo hi rule: less_induct)
  case less
  show ?case
  proof (cases "lo < hi")
    case False
    then show ?thesis using less.prems by (simp add: bisect_right_ints_stop)
  next
    case True
    let ?mid = "(lo + hi) div 2"
    have mid: "lo \<le> ?mid" "?mid < hi" "?mid - lo < hi - lo" "hi - (?mid + 1) < hi - lo"
      using True by auto
    have rx: "(if x < ms ! ?mid
               then bisect_right (map PInt ms) (PInt x) lo ?mid
               else bisect_right (map PInt ms) (PInt x) (?mid + 1) hi) = Inr r"
      using less.prems(4) bisect_right_ints_step [OF True less.prems(2), of x] by simp
    have ry: "(if y < ms ! ?mid
               then bisect_right (map PInt ms) (PInt y) lo ?mid
               else bisect_right (map PInt ms) (PInt y) (?mid + 1) hi) = Inr s"
      using less.prems(5) bisect_right_ints_step [OF True less.prems(2), of y] by simp
    consider (ll) "y < ms ! ?mid" | (lr) "x < ms ! ?mid" "\<not> y < ms ! ?mid" | (rr) "\<not> x < ms ! ?mid"
      by linarith
    then show ?thesis
    proof cases
      case ll
      then have "x < ms ! ?mid" using less.prems(1) by simp
      then show ?thesis
        using less.hyps [of ?mid lo] mid ll rx ry less.prems(1,2) by simp
    next
      case lr
      have "r \<le> ?mid"
        using bisect_right_ints_bounds [of ?mid ms lo x] mid less.prems(2) rx lr by auto
      moreover have "?mid + 1 \<le> s"
        using bisect_right_ints_bounds [of hi ms "?mid + 1" y] mid less.prems(2) ry lr by auto
      ultimately show ?thesis by simp
    next
      case rr
      then have "\<not> y < ms ! ?mid" using less.prems(1) by simp
      then show ?thesis
        using less.hyps [of hi "?mid + 1"] mid rr rx ry less.prems(1,2) by simp
    qed
  qed
qed

lemma bisect_right_ints_sorted:
  "sorted ms \<Longrightarrow> hi \<le> length ms \<Longrightarrow> lo \<le> hi \<Longrightarrow>
   bisect_right (map PInt ms) (PInt x) lo hi = Inr r \<Longrightarrow>
   (\<forall>i. lo \<le> i \<and> i < r \<longrightarrow> ms ! i \<le> x) \<and> (\<forall>i. r \<le> i \<and> i < hi \<longrightarrow> x < ms ! i)"
proof (induction "hi - lo" arbitrary: lo hi rule: less_induct)
  case less
  show ?case
  proof (cases "lo < hi")
    case False
    then show ?thesis using less.prems by (simp add: bisect_right_ints_stop)
  next
    case True
    let ?mid = "(lo + hi) div 2"
    have mid: "lo \<le> ?mid" "?mid < hi" "?mid - lo < hi - lo" "hi - (?mid + 1) < hi - lo"
      using True by auto
    have rx: "(if x < ms ! ?mid
               then bisect_right (map PInt ms) (PInt x) lo ?mid
               else bisect_right (map PInt ms) (PInt x) (?mid + 1) hi) = Inr r"
      using less.prems(4) bisect_right_ints_step [OF True less.prems(2), of x] by simp
    show ?thesis
    proof (cases "x < ms ! ?mid")
      case lt: True
      have rec: "bisect_right (map PInt ms) (PInt x) lo ?mid = Inr r" using rx lt by simp
      have ih: "(\<forall>i. lo \<le> i \<and> i < r \<longrightarrow> ms ! i \<le> x) \<and> (\<forall>i. r \<le> i \<and> i < ?mid \<longrightarrow> x < ms ! i)"
        using less.hyps [of ?mid lo] mid less.prems(1,2) rec by simp
      have up: "\<forall>i. ?mid \<le> i \<and> i < hi \<longrightarrow> x < ms ! i"
      proof (intro allI impI)
        fix i assume i: "?mid \<le> i \<and> i < hi"
        then have "ms ! ?mid \<le> ms ! i"
          using less.prems(1,2) by (simp add: sorted_nth_mono)
        then show "x < ms ! i" using lt by simp
      qed
      show ?thesis using ih up by (metis not_le_imp_less)
    next
      case ge: False
      have rec: "bisect_right (map PInt ms) (PInt x) (?mid + 1) hi = Inr r" using rx ge by simp
      have ih: "(\<forall>i. ?mid + 1 \<le> i \<and> i < r \<longrightarrow> ms ! i \<le> x) \<and> (\<forall>i. r \<le> i \<and> i < hi \<longrightarrow> x < ms ! i)"
        using less.hyps [of hi "?mid + 1"] mid less.prems(1,2) rec by simp
      have rb: "r \<le> hi"
        using bisect_right_ints_bounds [of hi ms "?mid + 1" x] mid less.prems(2) rec by auto
      have low: "\<forall>i. lo \<le> i \<and> i \<le> ?mid \<longrightarrow> ms ! i \<le> x"
      proof (intro allI impI)
        fix i assume i: "lo \<le> i \<and> i \<le> ?mid"
        then have "ms ! i \<le> ms ! ?mid"
          using less.prems(1,2) mid by (simp add: sorted_nth_mono)
        then show "ms ! i \<le> x" using ge by simp
      qed
      show ?thesis using ih low by (metis Suc_eq_plus1 not_less_eq_eq)
    qed
  qed
qed


lemma decide_step_user:
  assumes "getattr h runner (if by_epoch base then ''epoch'' else ''iter'') = Inr (PInt p)"
    and "init base (user_list M) = Inr self"
  shows "decide_step h runner self = bisect_right (map PInt (0 # map fst M)) (PInt (p + 1)) 0 (Suc (length M))"
  using assms by (auto simp: decide_step_def init_user_list bisect_def)

lemma resolve_user:
  assumes "getattr h runner (if by_epoch base then ''epoch'' else ''iter'') = Inr (PInt p)"
    and "init base (user_list M) = Inr self"
    and "decide_step h runner self = Inr (Suc k)"
    and "k \<le> length M"
    and "interval base = PInt b"
  shows "resolve base (user_list M) h runner = Inr (PInt ((b # map snd M) ! k))"
proof -
  have iv: "dynamic_intervals self = map PInt (b # map snd M)"
    using assms(2,5) by (auto simp: init_user_list)
  have ud: "use_dynamic_intervals self" using assms(2) by (auto simp: init_user_list)
  have "list_getitem (map PInt (b # map snd M)) (int (Suc k) - 1) = Inr (PInt ((b # map snd M) ! k))"
    using assms(4) by (simp add: list_getitem_def del: list.map)
  then show ?thesis
    using assms(2,3) iv ud by (simp add: resolve_def decide_interval_def)
qed

lemma bisect_right_ints_lo:
  "hi \<le> length ms \<Longrightarrow> lo < hi \<Longrightarrow>
   bisect_right (map PInt ms) (PInt x) lo hi = Inr lo \<Longrightarrow> x < ms ! lo"
proof (induction "hi - lo" arbitrary: hi rule: less_induct)
  case less
  let ?mid = "(lo + hi) div 2"
  have mid: "lo \<le> ?mid" "?mid < hi" "?mid - lo < hi - lo"
    using less.prems(2) by auto
  have rx: "(if x < ms ! ?mid
             then bisect_right (map PInt ms) (PInt x) lo ?mid
             else bisect_right (map PInt ms) (PInt x) (?mid + 1) hi) = Inr lo"
    using less.prems(3) bisect_right_ints_step [OF less.prems(2) less.prems(1), of x] by simp
  show ?case
  proof (cases "x < ms ! ?mid")
    case lt: True
    have rec: "bisect_right (map PInt ms) (PInt x) lo ?mid = Inr lo" using rx lt by simp
    show ?thesis
    proof (cases "lo < ?mid")
      case True
      then show ?thesis using less.hyps [of ?mid] mid less.prems(1) rec by simp
    next
      case False
      then have "?mid = lo" using mid by simp
      then show ?thesis using lt by simp
    qed
  next
    case ge: False
    have rec: "bisect_right (map PInt ms) (PInt x) (?mid + 1) hi = Inr lo" using rx ge by simp
    have "?mid + 1 \<le> lo"
      using bisect_right_ints_bounds [of hi ms "?mid + 1" x] mid less.prems(1) rec by auto
    then show ?thesis using mid by simp
  qed
qed

lemma step_positive:
  assumes "bisect_right (map PInt (0 # ms)) (PInt x) 0 (Suc (length ms)) = Inr r" and "0 \<le> x"
  shows "1 \<le> r"
proof (rule ccontr)
  assume "\<not> 1 \<le> r"
  then have r0: "r = 0" by simp
  have "x < (0 # ms) ! 0"
    using bisect_right_ints_lo [of "Suc (length ms)" "0 # ms" 0 x] assms(1) r0 by simp
  then show False using assms(2) by simp
qed

text \<open>What a run of the policy over a table of integer pairs yields.\<close>

lemma resolve_position:
  assumes "getattr h runner (if by_epoch base then ''epoch'' else ''iter'') = Inr (PInt p)"
    and "interval base = PInt b" and "0 \<le> p"
  shows "\<exists>self k. init base (user_list M) = Inr self \<and> decide_step h runner self = Inr (Suc k) \<and>
           k \<le> length M \<and>
           bisect_right (map PInt (0 # map fst M)) (PInt (p + 1)) 0 (Suc (length M)) = Inr (Suc k) \<and>
           resolve base (user_list M) h runner = Inr (PInt ((b # map snd M) ! k))"
proof -
  obtain self where self: "init base (user_list M) = Inr self" by (simp add: init_user_list)
  have ds: "decide_step h runner self
            = bisect_right (map PInt (0 # map fst M)) (PInt (p + 1)) 0 (Suc (length M))"
    by (rule decide_step_user [OF assms(1) self])
  obtain r where r: "bisect_right (map PInt (0 # map fst M)) (PInt (p + 1)) 0 (Suc (length M)) = Inr r"
    and rb: "r \<le> Suc (length M)"
    using bisect_right_ints_bounds [of "Suc (length M)" "0 # map fst M" 0 "p + 1"] by auto
  have "1 \<le> r" using step_positive [of "map fst M" "p + 1" r] r assms(3) by simp
  then obtain k where k: "r = Suc k" by (cases r) auto
  have kb: "k \<le> length M" using rb k by simp
  have "resolve base (user_list M) h runner = Inr (PInt ((b # map snd M) ! k))"
    using resolve_user [OF assms(1) self _ kb assms(2)] ds r k by simp
  then show ?thesis using self ds r k kb by auto
qed


text \<open>
  Claim C3, as amended. With base interval 5 and the list \<open>[(10, 2), (20, 1)]\<close>, for every
  progress \<open>p \<ge> 0\<close> the interval that \<open>_decide_interval\<close> sets is the one of the greatest
  milestone of \<open>[(0, 5), (10, 2), (20, 1)]\<close> not exceeding \<open>p + 1\<close>: 5 for \<open>p < 9\<close>, 2 for
  \<open>9 \<le> p < 19\<close>, and 1 for \<open>19 \<le> p\<close>.
\<close>

theorem decide_interval_example:
  assumes "interval base = PInt 5"
    and "getattr h runner (if by_epoch base then ''epoch'' else ''iter'') = Inr (PInt p)"
    and "0 \<le> p"
  shows "resolve base (user_list [(10, 2), (20, 1)]) h runner
           = Inr (PInt (if p + 1 < 10 then 5 else if p + 1 < 20 then 2 else 1)) \<and>
         greatest_milestone_interval [(0, 5), (10, 2), (20, 1)] (p + 1)
           (if p + 1 < 10 then 5 else if p + 1 < 20 then 2 else 1)"
proof -
  obtain k where k: "k \<le> 2"
    and b: "bisect_right (map PInt [0, 10, 20]) (PInt (p + 1)) 0 3 = Inr (Suc k)"
    and r: "resolve base (user_list [(10, 2), (20, 1)]) h runner = Inr (PInt ([5, 2, 1] ! k))"
    using resolve_position [OF assms(2) assms(1) assms(3), of "[(10, 2), (20, 1)]"]
    by (auto simp: numeral_3_eq_3)
  have srt: "sorted [0, 10, 20 :: int]" by simp
  have ch: "(\<forall>i. 0 \<le> i \<and> i < Suc k \<longrightarrow> [0, 10, 20] ! i \<le> p + 1) \<and>
            (\<forall>i. Suc k \<le> i \<and> i < 3 \<longrightarrow> p + 1 < [0, 10, 20] ! i)"
    using bisect_right_ints_sorted [OF srt _ _ b] by simp
  have below: "i < Suc k \<Longrightarrow> [0, 10, 20] ! i \<le> p + 1" for i using ch by blast
  have above: "Suc k \<le> i \<Longrightarrow> i < 3 \<Longrightarrow> p + 1 < [0, 10, 20] ! i" for i using ch by blast
  consider "k = 0" | "k = 1" | "k = 2" using k by linarith
  then have "[5, 2, 1] ! k = (if p + 1 < 10 then 5 else if p + 1 < 20 then 2 else (1::int))"
  proof cases
    case 1
    then show ?thesis using above [of 1] by simp
  next
    case 2
    then show ?thesis using below [of 1] above [of 2] by simp
  next
    case 3
    then show ?thesis using below [of 2] by simp
  qed
  then have "resolve base (user_list [(10, 2), (20, 1)]) h runner
           = Inr (PInt (if p + 1 < 10 then 5 else if p + 1 < 20 then 2 else 1))"
    using r by simp
  moreover have "greatest_milestone_interval [(0, 5), (10, 2), (20, 1)] (p + 1)
           (if p + 1 < 10 then 5 else if p + 1 < 20 then 2 else 1)"
    using assms(3) by (simp add: greatest_milestone_interval_def)
  ultimately show ?thesis by simp
qed

text \<open>
  The statement at progress 9, where the interval is already 2.
\<close>

theorem decide_interval_example_witness:
  "interval example_hook = PInt 5 \<and>
   getattr (progress_heap 9) (PRef 0) (if by_epoch example_hook then ''epoch'' else ''iter'') = Inr (PInt 9) \<and>
   (0::int) \<le> 9 \<and>
   resolve example_hook (user_list [(10, 2), (20, 1)]) (progress_heap 9) (PRef 0) = Inr (PInt 2) \<and>
   greatest_milestone_interval [(0, 5), (10, 2), (20, 1)] (9 + 1) 2"
  using decide_interval_example [of example_hook "progress_heap 9" "PRef 0" 9]
  by (simp add: example_hook_def progress_heap_def)

text \<open>
  Claim C3 as written gives 5 at progress 9 and 2 at progress 19, the intervals of the
  greatest milestones not exceeding 9 and 19. The code yields neither.
\<close>

theorem decide_interval_example_counterexample:
  "resolve example_hook (user_list [(10, 2), (20, 1)]) (progress_heap 9) (PRef 0) \<noteq> Inr (PInt 5) \<and>
   resolve example_hook (user_list [(10, 2), (20, 1)]) (progress_heap 19) (PRef 0) \<noteq> Inr (PInt 2) \<and>
   greatest_milestone_interval [(0, 5), (10, 2), (20, 1)] 9 5 \<and>
   greatest_milestone_interval [(0, 5), (10, 2), (20, 1)] 19 2"
  by (simp add: resolve_def init_def calc_dynamic_intervals_def user_list_def list_getitem_def
      decide_interval_def decide_step_def bisect_def bisect_right.simps
      example_hook_def progress_heap_def greatest_milestone_interval_def)


text \<open>
  Claim C4, as amended. For every list \<open>M\<close> of integer pairs and progress values
  \<open>0 \<le> p1 \<le> p2\<close>, the step computed at \<open>p1\<close> is at most the step computed at \<open>p2\<close>, so the
  position selected in the table never moves backwards; the interval itself is
  non-decreasing when the intervals of the table are. When the thresholds ascend and
  \<open>p1 + 1\<close> is below the first user milestone, the base interval results.
\<close>

theorem resolve_position_monotone:
  assumes "interval base = PInt b"
    and "getattr h1 runner (if by_epoch base then ''epoch'' else ''iter'') = Inr (PInt p1)"
    and "getattr h2 runner (if by_epoch base then ''epoch'' else ''iter'') = Inr (PInt p2)"
    and "0 \<le> p1" and "p1 \<le> p2"
  shows "\<exists>self k1 k2.
           init base (user_list M) = Inr self \<and>
           decide_step h1 runner self = Inr (Suc k1) \<and>
           decide_step h2 runner self = Inr (Suc k2) \<and>
           k1 \<le> k2 \<and> k2 \<le> length M \<and>
           resolve base (user_list M) h1 runner = Inr (PInt ((b # map snd M) ! k1)) \<and>
           resolve base (user_list M) h2 runner = Inr (PInt ((b # map snd M) ! k2)) \<and>
           (sorted (b # map snd M) \<longrightarrow> (b # map snd M) ! k1 \<le> (b # map snd M) ! k2) \<and>
           (sorted (0 # map fst M) \<and> (M = [] \<or> p1 + 1 < fst (hd M)) \<longrightarrow>
              resolve base (user_list M) h1 runner = Inr (PInt b))"
proof -
  let ?ms = "0 # map fst M"
  obtain self k1 where self: "init base (user_list M) = Inr self"
    and d1: "decide_step h1 runner self = Inr (Suc k1)"
    and k1: "k1 \<le> length M"
    and b1: "bisect_right (map PInt ?ms) (PInt (p1 + 1)) 0 (Suc (length M)) = Inr (Suc k1)"
    and r1: "resolve base (user_list M) h1 runner = Inr (PInt ((b # map snd M) ! k1))"
    using resolve_position [OF assms(2) assms(1) assms(4), of M] by blast
  have p2: "0 \<le> p2" using assms(4,5) by simp
  obtain self' k2 where self': "init base (user_list M) = Inr self'"
    and d2: "decide_step h2 runner self' = Inr (Suc k2)"
    and k2: "k2 \<le> length M"
    and b2: "bisect_right (map PInt ?ms) (PInt (p2 + 1)) 0 (Suc (length M)) = Inr (Suc k2)"
    and r2: "resolve base (user_list M) h2 runner = Inr (PInt ((b # map snd M) ! k2))"
    using resolve_position [OF assms(3) assms(1) p2, of M] by blast
  have same: "self' = self" using self self' by simp
  have "Suc k1 \<le> Suc k2"
    using bisect_right_ints_mono [of "p1 + 1" "p2 + 1" "Suc (length M)" ?ms 0 "Suc k1" "Suc k2"]
      assms(5) b1 b2 by simp
  then have le: "k1 \<le> k2" by simp
  have srt: "sorted (b # map snd M) \<longrightarrow> (b # map snd M) ! k1 \<le> (b # map snd M) ! k2"
  proof
    assume "sorted (b # map snd M)"
    then show "(b # map snd M) ! k1 \<le> (b # map snd M) ! k2"
      using le k2 by (intro sorted_nth_mono) simp_all
  qed
  have first: "sorted ?ms \<and> (M = [] \<or> p1 + 1 < fst (hd M)) \<longrightarrow>
                 resolve base (user_list M) h1 runner = Inr (PInt b)"
  proof
    assume a: "sorted ?ms \<and> (M = [] \<or> p1 + 1 < fst (hd M))"
    have "k1 = 0"
    proof (rule ccontr)
      assume "k1 \<noteq> 0"
      then have pos: "1 < Suc k1" "M \<noteq> []" using k1 by auto
      have "(\<forall>i. 0 \<le> i \<and> i < Suc k1 \<longrightarrow> ?ms ! i \<le> p1 + 1)"
        using bisect_right_ints_sorted [of ?ms "Suc (length M)" 0 "p1 + 1" "Suc k1"] a b1 by simp
      then have "?ms ! 1 \<le> p1 + 1" using pos by blast
      then have "fst (hd M) \<le> p1 + 1" using pos by (simp add: hd_conv_nth)
      then show False using a pos by simp
    qed
    then show "resolve base (user_list M) h1 runner = Inr (PInt b)" using r1 by simp
  qed
  show ?thesis
    using self d1 d2 same le k2 r1 r2 srt first by blast
qed

text \<open>
  The statement for base interval 5 and the list \<open>[(10, 7), (20, 9)]\<close> at progress 3 and 12.
\<close>

theorem resolve_position_monotone_witness:
  "interval example_hook = PInt 5 \<and>
   getattr (progress_heap 3) (PRef 0) (if by_epoch example_hook then ''epoch'' else ''iter'') = Inr (PInt 3) \<and>
   getattr (progress_heap 12) (PRef 0) (if by_epoch example_hook then ''epoch'' else ''iter'') = Inr (PInt 12) \<and>
   (0::int) \<le> 3 \<and> (3::int) \<le> 12 \<and>
   sorted (5 # map snd [(10, 7), (20, 9 :: int)]) \<and>
   sorted (0 # map fst [(10 :: int, 7 :: int), (20, 9)]) \<and> (3::int) + 1 < fst (hd [(10, 7 :: int), (20, 9)]) \<and>
   (\<exists>v1 v2. resolve example_hook (user_list [(10, 7), (20, 9)]) (progress_heap 3) (PRef 0) = Inr (PInt v1) \<and>
            resolve example_hook (user_list [(10, 7), (20, 9)]) (progress_heap 12) (PRef 0) = Inr (PInt v2) \<and>
            v1 \<le> v2 \<and> v1 = 5)"
  using resolve_position_monotone [of example_hook 5 "progress_heap 3" "PRef 0" 3 "progress_heap 12" 12
      "[(10, 7), (20, 9)]"]
  by (auto simp: example_hook_def progress_heap_def)

text \<open>
  Claim C4 as written fails twice for base interval 5 and the list \<open>[(10, 2)]\<close>: the
  interval drops from 5 at progress 0 to 2 at progress 10, and at progress 9, which is
  below the milestone 10, the interval is no longer the base interval.
\<close>

theorem resolve_monotone_counterexample:
  "resolve example_hook (user_list [(10, 2)]) (progress_heap 0) (PRef 0) = Inr (PInt 5) \<and>
   resolve example_hook (user_list [(10, 2)]) (progress_heap 10) (PRef 0) = Inr (PInt 2) \<and>
   (0::int) \<le> 10 \<and> \<not> (5::int) \<le> 2 \<and>
   (9::int) < 10 \<and> resolve example_hook (user_list [(10, 2)]) (progress_heap 9) (PRef 0) \<noteq> Inr (PInt 5)"
  by (simp add: resolve_def init_def calc_dynamic_intervals_def user_list_def list_getitem_def
      decide_interval_def decide_step_def bisect_def bisect_right.simps
      example_hook_def progress_heap_def)

lemma comprehension_tuples:
  "k = 0 \<or> k = 1 \<Longrightarrow>
   comprehension k (map PTuple tss) =
     (if \<exists>ts \<in> set tss. int (length ts) \<le> k then Inl IndexError
      else Inr (map (\<lambda>ts. ts ! nat k) tss))"
  by (induction tss) (auto simp: list_getitem_def)

lemma is_list_of_tuple_tuples: "is_list_of_tuple (PList (map PTuple tss))"
  by (induction tss) auto

text \<open>
  Claim C9, as amended. Construction fails with \<open>AssertionError\<close> when the argument is
  not a list of tuples, and with \<open>IndexError\<close> when a tuple has fewer than two elements.
  Every other list of tuples is accepted, whatever the entries hold and in whatever
  order the thresholds come: the table is the given entries behind the threshold 0 and
  the base interval.
\<close>

theorem init_outcome:
  "(d \<noteq> PNone \<and> \<not> is_list_of_tuple d \<longrightarrow> init base d = Inl AssertionError) \<and>
   init base (PList (map PTuple tss)) =
     (if \<exists>ts \<in> set tss. length ts < 2 then Inl IndexError
      else Inr (base\<lparr>use_dynamic_intervals := True,
                      dynamic_milestones := PInt 0 # map (\<lambda>ts. ts ! 0) tss,
                      dynamic_intervals := interval base # map (\<lambda>ts. ts ! 1) tss\<rparr>))"
proof -
  have c0: "comprehension 0 (map PTuple tss) =
     (if \<exists>ts \<in> set tss. length ts = 0 then Inl IndexError else Inr (map (\<lambda>ts. ts ! 0) tss))"
    using comprehension_tuples [of 0 tss] by simp
  have c1: "comprehension 1 (map PTuple tss) =
     (if \<exists>ts \<in> set tss. length ts \<le> 1 then Inl IndexError else Inr (map (\<lambda>ts. ts ! 1) tss))"
    using comprehension_tuples [of 1 tss] by simp
  have "init base (PList (map PTuple tss)) =
     (if \<exists>ts \<in> set tss. length ts < 2 then Inl IndexError
      else Inr (base\<lparr>use_dynamic_intervals := True,
                      dynamic_milestones := PInt 0 # map (\<lambda>ts. ts ! 0) tss,
                      dynamic_intervals := interval base # map (\<lambda>ts. ts ! 1) tss\<rparr>))"
  proof -
    have e1: "(n \<le> Suc 0) = (n < 2)" for n :: nat
      by auto
    have e0: "\<exists>ts \<in> set tss. length ts < 2" if ex: "\<exists>ts \<in> set tss. length ts = 0"
    proof -
      obtain ts where ts: "ts \<in> set tss" "length ts = 0" using ex by blast
      then have "length ts < 2" by simp
      then show ?thesis using ts(1) by blast
    qed
    show ?thesis
    proof (cases "\<exists>ts \<in> set tss. length ts = 0")
      case True
      then show ?thesis
        using is_list_of_tuple_tuples [of tss] e0
        by (simp add: init_def calc_dynamic_intervals_def c0 del: is_list_of_tuple.simps)
    next
      case False
      then show ?thesis
        using is_list_of_tuple_tuples [of tss]
        by (simp add: init_def calc_dynamic_intervals_def c0 c1 e1 del: is_list_of_tuple.simps)
    qed
  qed
  moreover have "d \<noteq> PNone \<and> \<not> is_list_of_tuple d \<longrightarrow> init base d = Inl AssertionError"
    by (simp add: init_def calc_dynamic_intervals_def)
  ultimately show ?thesis by simp
qed

text \<open>
  The three outcomes on concrete arguments; the accepted table has the thresholds
  0, 10, 5.
\<close>

theorem init_outcome_witness:
  "PStr ''x'' \<noteq> PNone \<and> \<not> is_list_of_tuple (PStr ''x'') \<and>
   init example_hook (PStr ''x'') = Inl AssertionError \<and>
   init example_hook (PList (map PTuple [[PInt 10, PInt 2], [PInt 5]])) = Inl IndexError \<and>
   init example_hook (PList (map PTuple [[PInt 10, PInt 2], [PInt 5, PInt 1]]))
     = Inr (example_hook\<lparr>use_dynamic_intervals := True,
                           dynamic_milestones := [PInt 0, PInt 10, PInt 5],
                           dynamic_intervals := [PInt 5, PInt 2, PInt 1]\<rparr>)"
  using init_outcome [of "PStr ''x''" example_hook "[[PInt 10, PInt 2], [PInt 5]]"]
    init_outcome [of "PStr ''x''" example_hook "[[PInt 10, PInt 2], [PInt 5, PInt 1]]"]
  by (simp add: example_hook_def)

text \<open>
  Claim C9 as written requires a failure for thresholds that do not increase, for a
  user milestone 0 and for entries of the wrong shape. Construction succeeds on each.
\<close>

theorem init_accepts_unordered_counterexample:
  "\<not> isl (init example_hook (user_list [(10, 2), (5, 1)])) \<and>
   \<not> isl (init example_hook (user_list [(0, 3)])) \<and>
   \<not> isl (init example_hook (PList [PTuple [PStr ''late'', PNone, PInt 7]]))"
  by (simp add: init_def calc_dynamic_intervals_def user_list_def list_getitem_def)

section \<open>The evaluation hook: facts\<close>

subsection \<open>Stores\<close>

lemma attrs_put_attr [simp]:
  "attrs (put_attr h a n x b) = (if b = a then (attrs (h a))(n \<mapsto> x) else attrs (h b))"
  by (simp add: put_attr_def)

lemma class_name_put_attr [simp]: "class_name (put_attr h a n x b) = class_name (h b)"
  by (simp add: put_attr_def)

lemma items_put_attr [simp]: "items (put_attr h a n x b) = items (h b)"
  by (simp add: put_attr_def)

lemma same_on_refl: "same_on N h h"
  by (simp add: same_on_def)

lemma same_on_trans: "same_on N h1 h2 \<Longrightarrow> same_on N h2 h3 \<Longrightarrow> same_on N h1 h3"
  by (simp add: same_on_def)

lemma same_on_mono: "same_on N h h' \<Longrightarrow> N' \<subseteq> N \<Longrightarrow> same_on N' h h'"
  by (auto simp: same_on_def)

lemma same_on_setattr: "setattr h v n x = Inr h' \<Longrightarrow> n \<notin> N \<Longrightarrow> same_on N h h'"
  by (cases v) (auto simp: same_on_def)

lemma same_on_setitem: "setitem h v k x = Inr h' \<Longrightarrow> same_on N h h'"
  by (cases v) (auto simp: same_on_def)

lemma same_on_getattr: "same_on N h h' \<Longrightarrow> n \<in> N \<Longrightarrow> getattr h' v n = getattr h v n"
  by (cases v) (auto simp: same_on_def)

lemma same_on_getattrs:
  "same_on N h h' \<Longrightarrow> set path \<subseteq> N \<Longrightarrow> getattrs h' v path = getattrs h v path"
  by (induction path arbitrary: v) (auto simp: same_on_getattr split: sum.splits)

lemma same_on_class_of: "same_on N h h' \<Longrightarrow> class_of h' v = class_of h v"
  by (cases v) (auto simp: same_on_def)

lemma same_on_recognized:
  "same_on N h h' \<Longrightarrow> link_names \<subseteq> N \<Longrightarrow> recognized h' runner = recognized h runner"
proof -
  assume s: "same_on N h h'" and l: "link_names \<subseteq> N"
  have a: "getattrs h' runner [''model'', ''module''] = getattrs h runner [''model'', ''module'']"
    using l by (intro same_on_getattrs [OF s]) (auto simp: link_names_def)
  have b: "getattrs h' runner [''model'', ''module'', ''pts_bbox_head'', ''use_history_flag'']
         = getattrs h runner [''model'', ''module'', ''pts_bbox_head'', ''use_history_flag'']"
    using l by (intro same_on_getattrs [OF s]) (auto simp: link_names_def)
  show ?thesis
    unfolding recognized_def a b by (simp add: same_on_class_of [OF s] split: sum.splits)
qed

lemma getattr_setattr:
  "setattr h (PRef a) n x = Inr h' \<Longrightarrow>
   getattr h' (PRef b) n' = (if b = a \<and> n' = n then Inr x else getattr h (PRef b) n')"
  by auto

lemma getattrs_snoc:
  "getattrs h v (path @ [n]) =
     (case getattrs h v path of Inl e \<Rightarrow> Inl e | Inr obj \<Rightarrow> getattr h obj n)"
  by (induction path arbitrary: v) (auto split: sum.splits)

subsection \<open>Computations\<close>

lemma frames_ret: "(\<And>w. R w w) \<Longrightarrow> frames R (ret x)"
  by (simp add: frames_def ret_def)

lemma frames_raise: "(\<And>w. R w w) \<Longrightarrow> frames R (raise e)"
  by (simp add: frames_def raise_def)

lemma frames_reading: "(\<And>w. R w w) \<Longrightarrow> frames R (reading f)"
  by (simp add: frames_def reading_def)

lemma frames_then_do:
  assumes "\<And>w1 w2 w3. R w1 w2 \<Longrightarrow> R w2 w3 \<Longrightarrow> R w1 w3"
    and "frames R m" and "\<And>x. frames R (f x)"
  shows "frames R (then_do m f)"
  unfolding frames_def
proof
  fix w
  obtain r w' where mw: "m w = (r, w')" by (cases "m w")
  have 1: "R w w'" using assms(2) mw by (auto simp: frames_def dest: spec [of _ w])
  show "R w (snd (then_do m f w))"
  proof (cases r)
    case (Inl e)
    then show ?thesis using 1 mw by (simp add: then_do_def)
  next
    case (Inr x)
    have "R w' (snd (f x w'))" using assms(3) [of x] by (simp add: frames_def)
    then show ?thesis using 1 mw Inr assms(1) by (auto simp: then_do_def)
  qed
qed

lemma frames_if: "frames R m \<Longrightarrow> frames R m' \<Longrightarrow> frames R (if b then m else m')"
  by simp

lemma frames_cond: "frames R m \<Longrightarrow> frames R m' \<Longrightarrow> frames R (\<lambda>w. if b w then m w else m' w)"
  by (simp add: frames_def)

lemma frames_local_var: "(\<And>w. R w w) \<Longrightarrow> frames R (local_var v)"
  by (cases v) (simp_all add: local_var_def frames_ret frames_raise)

lemma frames_writing:
  "(\<And>w. R w w) \<Longrightarrow> (\<And>w h'. f (heap w) = Inr h' \<Longrightarrow> R w (w\<lparr>heap := h'\<rparr>)) \<Longrightarrow> frames R (writing f)"
  by (auto simp: frames_def writing_def split: sum.splits)

lemma frames_emit: "(\<And>w. R w (w\<lparr>trace := trace w @ [ev]\<rparr>)) \<Longrightarrow> frames R (emit ev)"
  by (simp add: frames_def emit_def)

lemma frames_calling:
  "(\<And>w. R w (w\<lparr>heap := snd (f (hook_of w) (heap w))\<rparr>)) \<Longrightarrow> frames R (calling f)"
proof -
  assume r: "\<And>w. R w (w\<lparr>heap := snd (f (hook_of w) (heap w))\<rparr>)"
  show ?thesis
    unfolding frames_def
  proof
    fix w
    show "R w (snd (calling f w))"
      using r [of w] by (cases "f (hook_of w) (heap w)") (simp add: calling_def)
  qed
qed


subsection \<open>The guarded region and a relation between stores\<close>

lemma broadcast_bn_frames_world:
  assumes Rrefl: "\<And>w. R w w"
    and Rtrans: "\<And>w1 w2 w3. R w1 w2 \<Longrightarrow> R w2 w3 \<Longrightarrow> R w1 w3"
    and Rvar: "\<And>w v x h'. setattr (heap w) v ''running_var'' x = Inr h' \<Longrightarrow> R w (w\<lparr>heap := h'\<rparr>)"
    and Rmean: "\<And>w v x h'. setattr (heap w) v ''running_mean'' x = Inr h' \<Longrightarrow> R w (w\<lparr>heap := h'\<rparr>)"
    and Remit: "\<And>w t src. R w (w\<lparr>trace := trace w @ [Broadcast t src]\<rparr>)"
  shows "frames R (broadcast_bn c runner)"
proof -
  have T: "frames R m \<Longrightarrow> (\<And>x. frames R (f x)) \<Longrightarrow> frames R (then_do m f)"
    for m :: "'a prog" and f :: "'a \<Rightarrow> 'b prog"
    by (rule frames_then_do [of R]) (auto intro: Rtrans)
  have Rd: "frames R (reading f)" for f :: "heap \<Rightarrow> error + 'a"
    by (rule frames_reading) (rule Rrefl)
  have Rt: "frames R (ret x)" for x :: 'a
    by (rule frames_ret) (rule Rrefl)
  have Em: "frames R (emit (Broadcast t src))" for t src
    by (rule frames_emit) (rule Remit)
  have buf: "frames R (broadcast_buffer c v n)" if "n = ''running_var'' \<or> n = ''running_mean''" for v n
    unfolding broadcast_buffer_def
    using that by (intro T Rd Em frames_writing) (auto intro: Rrefl Rvar Rmean)
  have loop: "frames R (broadcast_loop c ms)" for ms
  proof (induction ms)
    case Nil
    show ?case by (simp add: Rt)
  next
    case (Cons a ms)
    obtain name v where a: "a = (name, v)" by (cases a)
    show ?case
      unfolding a broadcast_loop.simps
      by (intro T Rd frames_if Rt buf Cons.IH) simp_all
  qed
  show ?thesis
    unfolding broadcast_bn_def
    by (intro frames_cond T Rd Rt loop)
qed

lemma broadcast_bn_frames:
  assumes Qrefl: "\<And>h. Q h h"
    and Qtrans: "\<And>h1 h2 h3. Q h1 h2 \<Longrightarrow> Q h2 h3 \<Longrightarrow> Q h1 h3"
    and Qvar: "\<And>h v x h'. setattr h v ''running_var'' x = Inr h' \<Longrightarrow> Q h h'"
    and Qmean: "\<And>h v x h'. setattr h v ''running_mean'' x = Inr h' \<Longrightarrow> Q h h'"
  shows "frames (\<lambda>w w'. Q (heap w) (heap w')) (broadcast_bn c runner)"
  by (rule broadcast_bn_frames_world) (auto intro: Qrefl Qtrans Qvar Qmean)


lemma guarded_evaluation_frames:
  assumes Qrefl: "\<And>h. Q h h"
    and Qtrans: "\<And>h1 h2 h3. Q h1 h2 \<Longrightarrow> Q h2 h3 \<Longrightarrow> Q h1 h3"
    and Qvar: "\<And>h v x h'. setattr h v ''running_var'' x = Inr h' \<Longrightarrow> Q h h'"
    and Qmean: "\<And>h v x h'. setattr h v ''running_mean'' x = Inr h' \<Longrightarrow> Q h h'"
    and Qitem: "\<And>h v k x h'. setitem h v k x = Inr h' \<Longrightarrow> Q h h'"
    and calls: "calls_respect Q c"
  shows "frames (\<lambda>w w'. Q (heap w) (heap w')) (guarded_evaluation c runner)"
proof -
  let ?R = "\<lambda>w w'. Q (heap w) (heap w')"
  have T: "frames ?R m \<Longrightarrow> (\<And>x. frames ?R (f x)) \<Longrightarrow> frames ?R (then_do m f)"
    for m :: "'a prog" and f :: "'a \<Rightarrow> 'b prog"
    by (rule frames_then_do [of ?R]) (auto intro: Qtrans)
  have Rd: "frames ?R (reading f)" for f :: "heap \<Rightarrow> error + 'a"
    by (rule frames_reading) (rule Qrefl)
  have Rt: "frames ?R (ret x)" for x :: 'a
    by (rule frames_ret) (rule Qrefl)
  have Em: "frames ?R (emit ev)" for ev
    by (rule frames_emit) (simp add: Qrefl)
  have bn: "frames ?R (broadcast_bn c runner)"
    by (rule broadcast_bn_frames [of Q, OF Qrefl Qtrans Qvar Qmean])
  have tmp: "frames ?R (resolve_tmpdir runner)"
    unfolding resolve_tmpdir_def
    by (rule frames_cond) (intro T Rd, simp add: frames_def ret_def Qrefl)
  have test: "frames ?R (run_test c runner t)" for t
    unfolding run_test_def
  proof (intro T Rd Rt)
    fix shadow :: pyval
    show "frames ?R (\<lambda>w. emit (MultiGpuTest shadow (dataloader (hook_of w)) t (gpu_collect (hook_of w))) w)"
      by (simp add: frames_def emit_def Qrefl)
    show "frames ?R (calling (\<lambda>s h. multi_gpu_test c h shadow (dataloader s) t (gpu_collect s)))"
      using calls by (intro frames_calling) (simp add: calls_respect_def)
    fix results :: pyval
    show "frames ?R (\<lambda>w. (Inr (), w\<lparr>hook_of := (hook_of w)\<lparr>latest_results := Some results\<rparr>\<rparr>))"
      by (simp add: frames_def Qrefl)
  qed
  have r0: "frames ?R (rank0_part c runner results)" for results
    unfolding rank0_part_def
  proof (intro T Rd Em frames_if Rt)
    show "frames ?R (\<lambda>w. reading (\<lambda>h. len_of c h (dataloader (hook_of w))) w)"
      by (simp add: frames_def reading_def Qrefl)
    show "frames ?R (\<lambda>w. reading (\<lambda>h. truthy (save_best (hook_of w))) w)"
      by (simp add: frames_def reading_def Qrefl)
    fix out n :: pyval
    show "frames ?R (writing (\<lambda>h. setitem h out ''eval_iter_num'' n))"
      by (intro frames_writing) (auto intro: Qrefl Qitem)
    fix key_score :: pyval
    show "frames ?R (calling (\<lambda>s h. evaluate c s h runner results))"
      using calls by (intro frames_calling) (simp add: calls_respect_def)
    show "frames ?R (calling (\<lambda>s h. save_ckpt c s h runner key_score))"
      using calls by (intro frames_calling) (simp add: calls_respect_def)
  qed
  show ?thesis
    unfolding guarded_evaluation_def
    by (intro T bn frames_cond Rt tmp test Rd frames_if r0)
qed

subsection \<open>Writes along attribute chains\<close>

lemma same_on_put_attr: "n \<notin> N \<Longrightarrow> same_on N h (put_attr h a n x)"
  by (simp add: same_on_def)

lemma getattrs_put_attr:
  "n \<notin> set path \<Longrightarrow> getattrs (put_attr h a n x) v path = getattrs h v path"
  by (rule same_on_getattrs [OF same_on_put_attr [of n "set path"]]) simp_all

lemma recognized_put_attr:
  "n \<notin> link_names \<Longrightarrow> recognized (put_attr h a n x) runner = recognized h runner"
  by (rule same_on_recognized [OF same_on_put_attr [of n link_names]]) simp_all

lemma set_path_Inr:
  "getattrs h v path = Inr (PRef a) \<Longrightarrow> set_path h v path n x = Inr (put_attr h a n x)"
  by (simp add: set_path_def)

lemma set_path_InrD:
  "set_path h v path n x = Inr h' \<Longrightarrow> \<exists>a. getattrs h v path = Inr (PRef a) \<and> h' = put_attr h a n x"
proof -
  assume s: "set_path h v path n x = Inr h'"
  then obtain ob where ob: "getattrs h v path = Inr ob" and st: "setattr h ob n x = Inr h'"
    by (auto simp: set_path_def split: sum.splits)
  then show ?thesis by (cases ob) auto
qed

lemma getattrs_last:
  "getattrs h v [a, b, c, n] =
     (case getattrs h v [a, b, c] of Inl e \<Rightarrow> Inl e | Inr ob \<Rightarrow> getattr h ob n)"
  "getattrs h v [a, b, n] =
     (case getattrs h v [a, b] of Inl e \<Rightarrow> Inl e | Inr ob \<Rightarrow> getattr h ob n)"
  "getattrs h v [a, b, c, d, n] =
     (case getattrs h v [a, b, c, d] of Inl e \<Rightarrow> Inl e | Inr ob \<Rightarrow> getattr h ob n)"
  by (simp_all split: sum.splits)

lemmas prog_defs = ret_def raise_def then_do_def reading_def writing_def calling_def emit_def local_var_def

subsection \<open>The parallel path with a snapshot\<close>

lemma take_snapshot_tensors:
  assumes "getattrs (heap w) runner [''model'', ''module'', ''pts_bbox_head''] = Inr (PRef ph)"
    and "getattr (heap w) (PRef ph) ''history_occ'' = Inr (PTensor t1)"
    and "getattr (heap w) (PRef ph) ''history_seq_ids'' = Inr (PTensor t2)"
    and "getattr (heap w) (PRef ph) ''history_forward_augs'' = Inr (PTensor t3)"
    and "getattr (heap w) (PRef ph) ''history_sweep_time'' = Inr (PTensor t4)"
  shows "take_snapshot runner w =
           (Inr \<lparr>history_occ = Some (PTensor t1), history_seq_ids = Some (PTensor t2),
                 history_forward_augs = Some (PTensor t3), history_sweep_time = Some (PTensor t4)\<rparr>, w)"
  using assms
  by (simp add: take_snapshot_def cloned_def prog_defs getattrs_last del: getattrs.simps getattr.simps)

lemma save_and_clear_parallel:
  assumes "recognized (heap w) runner = Inr True"
    and "getattr (heap w) runner ''model'' = Inr model"
    and "is_parallel c (heap w) model"
    and "take_snapshot runner w = (Inr loc, w)"
    and "getattrs (heap w) runner [''model'', ''module'', ''pts_bbox_head''] = Inr (PRef ph)"
    and "getattrs (heap w) runner [''ema_model'', ''ema_model'', ''module'', ''pts_bbox_head''] = Inr (PRef sh)"
  shows "save_and_clear_history c runner w =
           (Inr loc, w\<lparr>heap := put_attr (put_attr (heap w) ph ''history_occ'' PNone) sh ''history_occ'' PNone\<rparr>)"
  using assms
  by (simp add: save_and_clear_history_def prog_defs set_path_def getattrs_put_attr
      del: getattrs.simps getattr.simps)

lemma restore_history_parallel:
  assumes "recognized (heap w) runner = Inr True"
    and "getattr (heap w) runner ''model'' = Inr model"
    and "is_parallel c (heap w) model"
    and "getattrs (heap w) runner [''model'', ''module'', ''pts_bbox_head''] = Inr (PRef ph)"
    and "getattrs (heap w) runner [''ema_model'', ''ema_model'', ''module'', ''pts_bbox_head''] = Inr (PRef sh)"
  shows "restore_history c runner
           \<lparr>history_occ = Some (PTensor t1), history_seq_ids = Some (PTensor t2),
            history_forward_augs = Some (PTensor t3), history_sweep_time = Some (PTensor t4)\<rparr> w =
           (Inr (), w\<lparr>heap :=
              put_attr (put_attr (put_attr (put_attr (put_attr (heap w)
                ph ''history_occ'' (PTensor t1))
                ph ''history_seq_ids'' (PTensor t2))
                ph ''history_forward_augs'' (PTensor t3))
                ph ''history_sweep_time'' (PTensor t4))
                sh ''history_occ'' PNone\<rparr>)"
  using assms
  by (simp add: restore_history_def restore_field_def prog_defs set_path_def getattrs_put_attr
      del: getattrs.simps getattr.simps)

lemma guarded_evaluation_triggered:
  assumes "should_evaluate c (hook_of (snd (broadcast_bn c runner w)))
             (heap (snd (broadcast_bn c runner w))) runner"
  shows "fst (guarded_evaluation c runner w) \<noteq> Inr Returned"
  using assms
  by (auto simp: guarded_evaluation_def then_do_def ret_def split: sum.splits prod.splits)

lemma guarded_evaluation_keeps_attr:
  assumes "calls_respect (\<lambda>h h'. attrs (h' a) n = attrs (h a) n) c"
    and "n \<noteq> ''running_var''" and "n \<noteq> ''running_mean''"
  shows "attrs (heap (snd (guarded_evaluation c runner w)) a) n = attrs (heap w a) n"
proof -
  let ?Q = "\<lambda>h h'. attrs (h' a) n = attrs (h a) n"
  have "frames (\<lambda>w w'. ?Q (heap w) (heap w')) (guarded_evaluation c runner)"
  proof (rule guarded_evaluation_frames [of ?Q, OF _ _ _ _ _ assms(1)])
    show "setattr h v ''running_var'' x = Inr h' \<Longrightarrow> ?Q h h'" for h v x h'
      using assms(2) by (cases v) auto
    show "setattr h v ''running_mean'' x = Inr h' \<Longrightarrow> ?Q h h'" for h v x h'
      using assms(3) by (cases v) auto
    show "setitem h v k x = Inr h' \<Longrightarrow> ?Q h h'" for h v k x h'
      by (cases v) auto
  qed simp_all
  then show ?thesis by (simp add: frames_def)
qed


lemma same_on_links_guarded:
  assumes "calls_respect (same_on link_names) c"
  shows "same_on link_names (heap w) (heap (snd (guarded_evaluation c runner w)))"
proof -
  have "frames (\<lambda>w w'. same_on link_names (heap w) (heap w')) (guarded_evaluation c runner)"
  proof (rule guarded_evaluation_frames [of "same_on link_names", OF _ _ _ _ _ assms])
    show "same_on link_names h h" for h by (rule same_on_refl)
    show "same_on link_names h1 h2 \<Longrightarrow> same_on link_names h2 h3 \<Longrightarrow> same_on link_names h1 h3"
      for h1 h2 h3 by (rule same_on_trans)
    show "setattr h v ''running_var'' x = Inr h' \<Longrightarrow> same_on link_names h h'" for h v x h'
      by (erule same_on_setattr) (simp add: link_names_def)
    show "setattr h v ''running_mean'' x = Inr h' \<Longrightarrow> same_on link_names h h'" for h v x h'
      by (erule same_on_setattr) (simp add: link_names_def)
    show "setitem h v k x = Inr h' \<Longrightarrow> same_on link_names h h'" for h v k x h'
      by (rule same_on_setitem)
  qed
  then show ?thesis by (simp add: frames_def)
qed

text \<open>
  Claim C5, as amended. For a recognized parallel model whose four history buffers hold
  tensors, with the primary and the shadow head distinct objects: when the trigger
  answers true at line 87, the framework calls leave classes and links as they are, and
  \<open>_do_evaluate\<close> runs to completion, the primary head holds its four pre-call tensors
  again and \<open>history_occ\<close> of the shadow head is \<open>None\<close>. The other three history fields
  of the shadow head are not written by this function: the entry step leaves them as
  they were, the exit step leaves them as the guarded region left them, and they hold
  their pre-call values at the end when the framework calls do not write them.
\<close>

theorem history_restored_after_evaluation:
  assumes rec: "recognized (heap w) runner = Inr True"
    and model: "getattr (heap w) runner ''model'' = Inr model"
    and par: "\<forall>h. same_on link_names (heap w) h \<longrightarrow> is_parallel c h model"
    and prim: "getattrs (heap w) runner [''model'', ''module'', ''pts_bbox_head''] = Inr (PRef ph)"
    and shadow: "getattrs (heap w) runner [''ema_model'', ''ema_model'', ''module'', ''pts_bbox_head'']
                   = Inr (PRef sh)"
    and distinct: "ph \<noteq> sh"
    and occ: "getattr (heap w) (PRef ph) ''history_occ'' = Inr (PTensor t1)"
    and seq: "getattr (heap w) (PRef ph) ''history_seq_ids'' = Inr (PTensor t2)"
    and aug: "getattr (heap w) (PRef ph) ''history_forward_augs'' = Inr (PTensor t3)"
    and swp: "getattr (heap w) (PRef ph) ''history_sweep_time'' = Inr (PTensor t4)"
    and trig: "should_evaluate c
                 (hook_of (snd (broadcast_bn c runner (snd (save_and_clear_history c runner w)))))
                 (heap (snd (broadcast_bn c runner (snd (save_and_clear_history c runner w)))))
                 runner"
    and links: "calls_respect (same_on link_names) c"
    and fin: "do_evaluate c runner w = (Inr (), w')"
  shows "getattrs (heap w') runner [''model'', ''module'', ''pts_bbox_head''] = Inr (PRef ph) \<and>
         getattr (heap w') (PRef ph) ''history_occ'' = Inr (PTensor t1) \<and>
         getattr (heap w') (PRef ph) ''history_seq_ids'' = Inr (PTensor t2) \<and>
         getattr (heap w') (PRef ph) ''history_forward_augs'' = Inr (PTensor t3) \<and>
         getattr (heap w') (PRef ph) ''history_sweep_time'' = Inr (PTensor t4) \<and>
         getattrs (heap w') runner [''ema_model'', ''ema_model'', ''module'', ''pts_bbox_head'']
           = Inr (PRef sh) \<and>
         getattr (heap w') (PRef sh) ''history_occ'' = Inr PNone \<and>
         (\<forall>n \<in> {''history_seq_ids'', ''history_forward_augs'', ''history_sweep_time''}.
            attrs (heap (snd (save_and_clear_history c runner w)) sh) n = attrs (heap w sh) n \<and>
            attrs (heap w' sh) n
              = attrs (heap (snd (guarded_evaluation c runner
                                    (snd (save_and_clear_history c runner w)))) sh) n \<and>
            (calls_respect (\<lambda>h h'. attrs (h' sh) n = attrs (h sh) n) c \<longrightarrow>
               attrs (heap w' sh) n = attrs (heap w sh) n))"
proof -
  let ?loc = "\<lparr>history_occ = Some (PTensor t1), history_seq_ids = Some (PTensor t2),
               history_forward_augs = Some (PTensor t3), history_sweep_time = Some (PTensor t4)\<rparr>"
  let ?h1 = "put_attr (put_attr (heap w) ph ''history_occ'' PNone) sh ''history_occ'' PNone"
  let ?w1 = "w\<lparr>heap := ?h1\<rparr>"
  have par0: "is_parallel c (heap w) model" using par same_on_refl by blast
  have enter: "save_and_clear_history c runner w = (Inr ?loc, ?w1)"
    by (rule save_and_clear_parallel [OF rec model par0
          take_snapshot_tensors [OF prim occ seq aug swp] prim shadow])
  have l01: "same_on link_names (heap w) ?h1"
    by (intro same_on_trans [OF same_on_put_attr same_on_put_attr]) (simp_all add: link_names_def)
  obtain r w2 where g: "guarded_evaluation c runner ?w1 = (r, w2)"
    by (cases "guarded_evaluation c runner ?w1")
  have l12: "same_on link_names ?h1 (heap w2)"
    using same_on_links_guarded [OF links, of ?w1 runner] g by simp
  have l02: "same_on link_names (heap w) (heap w2)"
    by (rule same_on_trans [OF l01 l12])
  have r: "r = Inr Reached_restore"
  proof (cases r)
    case (Inl e)
    then show ?thesis using fin enter g by (simp add: do_evaluate_def then_do_def)
  next
    case (Inr fl)
    then show ?thesis
      using guarded_evaluation_triggered [of c runner ?w1] trig enter g by (cases fl) simp_all
  qed
  have rest: "restore_history c runner ?loc w2 = (Inr (), w')"
    using fin enter g r by (simp add: do_evaluate_def then_do_def)
  have rec2: "recognized (heap w2) runner = Inr True"
    using same_on_recognized [OF l02, of runner] rec by simp
  have model2: "getattr (heap w2) runner ''model'' = Inr model"
    using same_on_getattr [OF l02, of "''model''" runner] model by (simp add: link_names_def)
  have prim2: "getattrs (heap w2) runner [''model'', ''module'', ''pts_bbox_head''] = Inr (PRef ph)"
    using same_on_getattrs [OF l02, of "[''model'', ''module'', ''pts_bbox_head'']" runner] prim
    by (simp add: link_names_def del: getattrs.simps)
  have shadow2: "getattrs (heap w2) runner [''ema_model'', ''ema_model'', ''module'', ''pts_bbox_head'']
                   = Inr (PRef sh)"
    using same_on_getattrs [OF l02, of "[''ema_model'', ''ema_model'', ''module'', ''pts_bbox_head'']" runner]
      shadow by (simp add: link_names_def del: getattrs.simps)
  have par2: "is_parallel c (heap w2) model" using par l02 by blast
  have w': "w' = w2\<lparr>heap :=
              put_attr (put_attr (put_attr (put_attr (put_attr (heap w2)
                ph ''history_occ'' (PTensor t1))
                ph ''history_seq_ids'' (PTensor t2))
                ph ''history_forward_augs'' (PTensor t3))
                ph ''history_sweep_time'' (PTensor t4))
                sh ''history_occ'' PNone\<rparr>"
    using restore_history_parallel [OF rec2 model2 par2 prim2 shadow2, of t1 t2 t3 t4] rest by simp
  have main: "getattrs (heap w') runner [''model'', ''module'', ''pts_bbox_head''] = Inr (PRef ph) \<and>
         getattr (heap w') (PRef ph) ''history_occ'' = Inr (PTensor t1) \<and>
         getattr (heap w') (PRef ph) ''history_seq_ids'' = Inr (PTensor t2) \<and>
         getattr (heap w') (PRef ph) ''history_forward_augs'' = Inr (PTensor t3) \<and>
         getattr (heap w') (PRef ph) ''history_sweep_time'' = Inr (PTensor t4) \<and>
         getattrs (heap w') runner [''ema_model'', ''ema_model'', ''module'', ''pts_bbox_head'']
           = Inr (PRef sh) \<and>
         getattr (heap w') (PRef sh) ''history_occ'' = Inr PNone"
    unfolding w' using distinct prim2 shadow2
    by (simp add: getattrs_put_attr del: getattrs.simps)
  have others: "attrs (heap (snd (save_and_clear_history c runner w)) sh) n = attrs (heap w sh) n \<and>
            attrs (heap w' sh) n
              = attrs (heap (snd (guarded_evaluation c runner
                                    (snd (save_and_clear_history c runner w)))) sh) n \<and>
            (calls_respect (\<lambda>h h'. attrs (h' sh) n = attrs (h sh) n) c \<longrightarrow>
               attrs (heap w' sh) n = attrs (heap w sh) n)"
    if n: "n \<in> {''history_seq_ids'', ''history_forward_augs'', ''history_sweep_time''}" for n
  proof -
    have nn: "n \<noteq> ''history_occ''" "n \<noteq> ''running_var''" "n \<noteq> ''running_mean''"
      using n by auto
    have a: "attrs (heap (snd (save_and_clear_history c runner w)) sh) n = attrs (heap w sh) n"
      using enter nn by simp
    have b: "attrs (heap w' sh) n = attrs (heap w2 sh) n"
      unfolding w' using distinct nn by simp
    have c: "attrs (heap w2 sh) n = attrs (heap w sh) n"
      if "calls_respect (\<lambda>h h'. attrs (h' sh) n = attrs (h sh) n) c"
      using guarded_evaluation_keeps_attr [OF that nn(2,3), of runner ?w1] g nn by simp
    show ?thesis using a b c enter g by simp
  qed
  show ?thesis using main others by blast
qed


subsection \<open>Running the examples\<close>

lemma example_heap_objects:
  "attrs (example_heap 0) = map_of [(''model'', PRef 12), (''ema_model'', PRef 4), (''rank'', PInt 0),
              (''epoch'', PInt 3), (''iter'', PInt 300), (''work_dir'', PStr ''work''),
              (''log_buffer'', PRef 8)]"
  "attrs (example_heap 12) = map_of [(''module'', PRef 2)]"
  "attrs (example_heap 2) = map_of [(''pts_bbox_head'', PRef 3)]"
  "attrs (example_heap 3) = map_of  [(''use_history_flag'', PBool True), (''history_occ'', PTensor [1, 2]),
              (''history_seq_ids'', PTensor [3]), (''history_forward_augs'', PTensor [4]),
              (''history_sweep_time'', PTensor [5])]"
  "attrs (example_heap 4) = map_of [(''ema_model'', PRef 5)]"
  "attrs (example_heap 5) = map_of [(''module'', PRef 6)]"
  "attrs (example_heap 6) = map_of [(''pts_bbox_head'', PRef 7)]"
  "attrs (example_heap 7) = map_of [(''use_history_flag'', PBool True), (''history_occ'', PTensor [6]),
              (''history_seq_ids'', PTensor [7]), (''history_forward_augs'', PTensor [8]),
              (''history_sweep_time'', PTensor [9])]"
  "attrs (example_heap 8) = map_of [(''output'', PRef 9)]"
  "attrs (example_heap 11) = map_of [(''track_running_stats'', PBool True), (''running_var'', PTensor [1]),
              (''running_mean'', PTensor [0])]"
  "class_name (example_heap 12) = ''MMDistributedDataParallel''"
  "class_name (example_heap 2) = ''TemporalOcc''"
  "class_name (example_heap 11) = ''BatchNorm2d''"
  by (simp_all add: example_heap_def mk_obj_def)

lemmas hook_defs = do_evaluate_def save_and_clear_history_def take_snapshot_def cloned_def recognized_def
  guarded_evaluation_def broadcast_bn_def broadcast_buffer_def resolve_tmpdir_def run_test_def rank0_part_def
  restore_history_def restore_field_def set_path_def

lemmas example_defs = example_world_def example_collab_def example_hook_def example_heap_objects

text \<open>
  The statement on the example store, with a test runner that fills the shadow history.
\<close>

theorem history_restored_after_evaluation_witness:
  "recognized (heap example_world) (PRef 0) = Inr True \<and>
   getattr (heap example_world) (PRef 0) ''model'' = Inr (PRef 12) \<and>
   is_parallel (example_collab True (Inr (PList [])) (Inr (PFloat 1))) (heap example_world) (PRef 12) \<and>
   getattrs (heap example_world) (PRef 0) [''model'', ''module'', ''pts_bbox_head''] = Inr (PRef 3) \<and>
   getattrs (heap example_world) (PRef 0) [''ema_model'', ''ema_model'', ''module'', ''pts_bbox_head'']
     = Inr (PRef 7) \<and>
   getattr (heap example_world) (PRef 3) ''history_occ'' = Inr (PTensor [1, 2]) \<and>
   calls_respect (same_on link_names) (example_collab True (Inr (PList [])) (Inr (PFloat 1))) \<and>
   fst (do_evaluate (example_collab True (Inr (PList [])) (Inr (PFloat 1))) (PRef 0) example_world) = Inr () \<and>
   getattr (heap (snd (do_evaluate (example_collab True (Inr (PList [])) (Inr (PFloat 1))) (PRef 0)
      example_world))) (PRef 3) ''history_occ'' = Inr (PTensor [1, 2]) \<and>
   getattr (heap (snd (do_evaluate (example_collab True (Inr (PList [])) (Inr (PFloat 1))) (PRef 0)
      example_world))) (PRef 3) ''history_sweep_time'' = Inr (PTensor [5]) \<and>
   getattr (heap (snd (do_evaluate (example_collab True (Inr (PList [])) (Inr (PFloat 1))) (PRef 0)
      example_world))) (PRef 7) ''history_occ'' = Inr PNone \<and>
   attrs (heap (snd (do_evaluate (example_collab True (Inr (PList [])) (Inr (PFloat 1))) (PRef 0)
      example_world)) 7) ''history_seq_ids'' = attrs (heap example_world 7) ''history_seq_ids''"
proof -
  let ?c = "example_collab True (Inr (PList [])) (Inr (PFloat 1))"
  let ?h = "heap example_world"
  have rec: "recognized ?h (PRef 0) = Inr True"
    by (simp add: recognized_def example_defs)
  have model: "getattr ?h (PRef 0) ''model'' = Inr (PRef 12)"
    by (simp add: example_defs)
  have par: "\<forall>h. same_on link_names ?h h \<longrightarrow> is_parallel ?c h (PRef 12)"
    by (simp add: same_on_def example_defs)
  have par0: "is_parallel ?c ?h (PRef 12)"
    using par same_on_refl by blast
  have prim: "getattrs ?h (PRef 0) [''model'', ''module'', ''pts_bbox_head''] = Inr (PRef 3)"
    by (simp add: example_defs)
  have shadow: "getattrs ?h (PRef 0) [''ema_model'', ''ema_model'', ''module'', ''pts_bbox_head'']
                  = Inr (PRef 7)"
    by (simp add: example_defs)
  have occ: "getattr ?h (PRef 3) ''history_occ'' = Inr (PTensor [1, 2])"
    and seq: "getattr ?h (PRef 3) ''history_seq_ids'' = Inr (PTensor [3])"
    and aug: "getattr ?h (PRef 3) ''history_forward_augs'' = Inr (PTensor [4])"
    and swp: "getattr ?h (PRef 3) ''history_sweep_time'' = Inr (PTensor [5])"
    by (simp_all add: example_defs)
  have trig: "should_evaluate ?c
                (hook_of (snd (broadcast_bn ?c (PRef 0) (snd (save_and_clear_history ?c (PRef 0) example_world)))))
                (heap (snd (broadcast_bn ?c (PRef 0) (snd (save_and_clear_history ?c (PRef 0) example_world)))))
                (PRef 0)"
    by (simp add: example_collab_def)
  have keep: "calls_respect (\<lambda>h h'. attrs (h' 7) ''history_seq_ids'' = attrs (h 7) ''history_seq_ids'') ?c"
    by (simp add: calls_respect_def example_collab_def)
  have links: "calls_respect (same_on link_names) ?c"
    by (simp add: calls_respect_def example_collab_def same_on_refl same_on_put_attr link_names_def)
  have run: "fst (do_evaluate ?c (PRef 0) example_world) = Inr ()"
    by (simp add: prog_defs hook_defs example_defs)
  then have fin: "do_evaluate ?c (PRef 0) example_world = (Inr (), snd (do_evaluate ?c (PRef 0) example_world))"
    by (metis prod.collapse)
  have neq: "(3::nat) \<noteq> 7" by simp
  note concl = history_restored_after_evaluation
    [OF rec model par prim shadow neq occ seq aug swp trig links fin]
  show ?thesis
    using rec model par0 prim shadow occ links run keep concl by blast
qed

text \<open>
  Claim C5 as written fails in two ways on the example store. After a completed run with
  the trigger true the shadow head still holds \<open>history_seq_ids\<close>, so its history
  buffers are not all empty. And with the trigger false the call completes through the
  return of line 88 with the primary \<open>history_occ\<close> cleared, not equal to its pre-call
  value.
\<close>

theorem history_not_restored_counterexample:
  "fst (do_evaluate (example_collab True (Inr (PList [])) (Inr (PFloat 1))) (PRef 0) example_world) = Inr () \<and>
   getattrs (heap (snd (do_evaluate (example_collab True (Inr (PList [])) (Inr (PFloat 1))) (PRef 0)
      example_world))) (PRef 0)
      [''ema_model'', ''ema_model'', ''module'', ''pts_bbox_head'', ''history_seq_ids'']
     = Inr (PTensor [7]) \<and>
   getattrs (heap example_world) (PRef 0) [''model'', ''module'', ''pts_bbox_head'', ''history_occ'']
     = Inr (PTensor [1, 2]) \<and>
   fst (do_evaluate (example_collab False (Inr (PList [])) (Inr (PFloat 1))) (PRef 0) example_world) = Inr () \<and>
   getattrs (heap (snd (do_evaluate (example_collab False (Inr (PList [])) (Inr (PFloat 1))) (PRef 0)
      example_world))) (PRef 0) [''model'', ''module'', ''pts_bbox_head'', ''history_occ'']
     = Inr PNone"
  by (simp add: prog_defs hook_defs example_defs)

subsection \<open>Entry: what the clearing leaves\<close>

lemma take_snapshot_state: "snd (take_snapshot runner w) = w"
  by (simp add: take_snapshot_def prog_defs split: sum.splits)

lemma then_do_InrD:
  "then_do m f w = (Inr y, w') \<Longrightarrow> \<exists>x w1. m w = (Inr x, w1) \<and> f x w1 = (Inr y, w')"
  by (auto simp: then_do_def split: prod.splits sum.splits)

lemma writing_InrD:
  "writing f w = (Inr u, w') \<Longrightarrow> \<exists>h'. f (heap w) = Inr h' \<and> w' = w\<lparr>heap := h'\<rparr>"
  by (auto simp: writing_def split: sum.splits)

lemma ret_InrD: "ret x w = (Inr y, w') \<Longrightarrow> y = x \<and> w' = w"
  by (simp add: ret_def)

lemma save_and_clear_parallel_D:
  assumes "recognized (heap w) runner = Inr True"
    and "getattr (heap w) runner ''model'' = Inr model"
    and "is_parallel c (heap w) model"
    and "save_and_clear_history c runner w = (Inr loc, w1)"
  shows "\<exists>ph sh.
           getattrs (heap w) runner [''model'', ''module'', ''pts_bbox_head''] = Inr (PRef ph) \<and>
           getattrs (heap w) runner [''ema_model'', ''ema_model'', ''module'', ''pts_bbox_head'']
             = Inr (PRef sh) \<and>
           w1 = w\<lparr>heap := put_attr (put_attr (heap w) ph ''history_occ'' PNone) sh ''history_occ'' PNone\<rparr>"
proof -
  let ?p = "[''model'', ''module'', ''pts_bbox_head'']"
  let ?s = "[''ema_model'', ''ema_model'', ''module'', ''pts_bbox_head'']"
  have run: "then_do (take_snapshot runner) (\<lambda>loc.
               then_do (writing (\<lambda>h. set_path h runner ?p ''history_occ'' PNone)) (\<lambda>_.
               then_do (writing (\<lambda>h. set_path h runner ?s ''history_occ'' PNone)) (\<lambda>_.
               ret loc))) w = (Inr loc, w1)"
    using assms
    by (simp add: save_and_clear_history_def then_do_def reading_def del: getattrs.simps getattr.simps)
  obtain l wa where snap: "take_snapshot runner w = (Inr l, wa)"
    and run2: "then_do (writing (\<lambda>h. set_path h runner ?p ''history_occ'' PNone)) (\<lambda>_.
               then_do (writing (\<lambda>h. set_path h runner ?s ''history_occ'' PNone)) (\<lambda>_.
               ret l)) wa = (Inr loc, w1)"
    using then_do_InrD [OF run] by blast
  have wa: "wa = w" using take_snapshot_state [of runner w] snap by simp
  obtain u wb where wr1: "writing (\<lambda>h. set_path h runner ?p ''history_occ'' PNone) w = (Inr u, wb)"
    and run3: "then_do (writing (\<lambda>h. set_path h runner ?s ''history_occ'' PNone)) (\<lambda>_. ret l) wb
                 = (Inr loc, w1)"
    using then_do_InrD [OF run2] unfolding wa by blast
  obtain h1 where s1: "set_path (heap w) runner ?p ''history_occ'' PNone = Inr h1"
    and wb: "wb = w\<lparr>heap := h1\<rparr>"
    using writing_InrD [OF wr1] by blast
  obtain u' wc where wr2: "writing (\<lambda>h. set_path h runner ?s ''history_occ'' PNone) wb = (Inr u', wc)"
    and fin: "ret l wc = (Inr loc, w1)"
    using then_do_InrD [OF run3] by blast
  obtain h2 where s2: "set_path h1 runner ?s ''history_occ'' PNone = Inr h2"
    and wc: "wc = wb\<lparr>heap := h2\<rparr>"
    using writing_InrD [OF wr2] unfolding wb by auto
  have w1: "w1 = w\<lparr>heap := h2\<rparr>"
    using ret_InrD [OF fin] wc wb by simp
  obtain ph where ph: "getattrs (heap w) runner ?p = Inr (PRef ph)" and h1: "h1 = put_attr (heap w) ph ''history_occ'' PNone"
    using set_path_InrD [OF s1] by blast
  obtain sh where sh: "getattrs h1 runner ?s = Inr (PRef sh)" and h2: "h2 = put_attr h1 sh ''history_occ'' PNone"
    using set_path_InrD [OF s2] by blast
  have "getattrs (heap w) runner ?s = Inr (PRef sh)"
    using sh unfolding h1 by (simp add: getattrs_put_attr del: getattrs.simps)
  then show ?thesis using ph h1 h2 w1 by blast
qed

lemma save_and_clear_plain_D:
  assumes "recognized (heap w) runner = Inr True"
    and "getattr (heap w) runner ''model'' = Inr model"
    and "\<not> is_parallel c (heap w) model"
    and "save_and_clear_history c runner w = (Inr loc, w1)"
  shows "loc = unbound \<and>
         (\<exists>ph sh.
           getattrs (heap w) runner [''model'', ''pts_bbox_head''] = Inr (PRef ph) \<and>
           getattrs (heap w) runner [''ema_model'', ''ema_model'', ''pts_bbox_head''] = Inr (PRef sh) \<and>
           w1 = w\<lparr>heap := put_attr (put_attr (heap w) sh ''history_occ'' PNone) ph ''history_occ'' PNone\<rparr>)"
proof -
  let ?p = "[''model'', ''pts_bbox_head'']"
  let ?s = "[''ema_model'', ''ema_model'', ''pts_bbox_head'']"
  have run: "then_do (writing (\<lambda>h. set_path h runner ?s ''history_occ'' PNone)) (\<lambda>_.
             then_do (writing (\<lambda>h. set_path h runner ?p ''history_occ'' PNone)) (\<lambda>_.
             ret unbound)) w = (Inr loc, w1)"
    using assms
    by (simp add: save_and_clear_history_def then_do_def reading_def del: getattrs.simps getattr.simps)
  obtain u wb where wr1: "writing (\<lambda>h. set_path h runner ?s ''history_occ'' PNone) w = (Inr u, wb)"
    and run3: "then_do (writing (\<lambda>h. set_path h runner ?p ''history_occ'' PNone)) (\<lambda>_. ret unbound) wb
                 = (Inr loc, w1)"
    using then_do_InrD [OF run] by blast
  obtain h1 where s1: "set_path (heap w) runner ?s ''history_occ'' PNone = Inr h1"
    and wb: "wb = w\<lparr>heap := h1\<rparr>"
    using writing_InrD [OF wr1] by blast
  obtain u' wc where wr2: "writing (\<lambda>h. set_path h runner ?p ''history_occ'' PNone) wb = (Inr u', wc)"
    and fin: "ret unbound wc = (Inr loc, w1)"
    using then_do_InrD [OF run3] by blast
  obtain h2 where s2: "set_path h1 runner ?p ''history_occ'' PNone = Inr h2"
    and wc: "wc = wb\<lparr>heap := h2\<rparr>"
    using writing_InrD [OF wr2] unfolding wb by auto
  have loc: "loc = unbound" and w1: "w1 = w\<lparr>heap := h2\<rparr>"
    using ret_InrD [OF fin] wc wb by simp_all
  obtain sh where sh: "getattrs (heap w) runner ?s = Inr (PRef sh)" and h1: "h1 = put_attr (heap w) sh ''history_occ'' PNone"
    using set_path_InrD [OF s1] by blast
  obtain ph where ph: "getattrs h1 runner ?p = Inr (PRef ph)" and h2: "h2 = put_attr h1 ph ''history_occ'' PNone"
    using set_path_InrD [OF s2] by blast
  have "getattrs (heap w) runner ?p = Inr (PRef ph)"
    using ph unfolding h1 by (simp add: getattrs_put_attr del: getattrs.simps)
  then show ?thesis using loc sh h1 h2 w1 by blast
qed

lemma cleared_reads_None:
  assumes "getattrs h v path = Inr (PRef a)" and "''history_occ'' \<notin> set path"
    and "h' = put_attr (put_attr h b ''history_occ'' PNone) b' ''history_occ'' PNone"
    and "a = b \<or> a = b'"
  shows "getattrs h' v (path @ [''history_occ'']) = Inr PNone"
proof -
  have "getattrs h' v path = Inr (PRef a)"
    using assms(1,2) unfolding assms(3) by (simp add: getattrs_put_attr)
  then show ?thesis
    using assms(4) unfolding getattrs_snoc assms(3) by auto
qed

text \<open>
  Claim C6, as amended. For a recognized model, when lines 63 to 78 complete, the
  attribute \<open>history_occ\<close> is \<open>None\<close> on the primary head and on the shadow head (the
  heads reached through \<open>module\<close> when the model is parallel, directly otherwise); every
  other attribute of every object, the other three history fields among them, is as
  before; trace and hook are untouched; and the rest of \<open>_do_evaluate\<close>, the
  evaluation included, runs from that state.
\<close>

theorem history_occ_cleared_on_entry:
  assumes rec: "recognized (heap w) runner = Inr True"
    and model: "getattr (heap w) runner ''model'' = Inr model"
    and enter: "save_and_clear_history c runner w = (Inr loc, w1)"
  shows "getattrs (heap w1) runner
           (primary_head_path (is_parallel c (heap w) model) @ [''history_occ'']) = Inr PNone \<and>
         getattrs (heap w1) runner
           (shadow_head_path (is_parallel c (heap w) model) @ [''history_occ'']) = Inr PNone \<and>
         same_on (- {''history_occ''}) (heap w) (heap w1) \<and>
         trace w1 = trace w \<and> hook_of w1 = hook_of w \<and>
         do_evaluate c runner w =
           then_do (guarded_evaluation c runner)
             (\<lambda>fl. case fl of Returned \<Rightarrow> ret () | Reached_restore \<Rightarrow> restore_history c runner loc) w1"
proof -
  have cont: "do_evaluate c runner w =
           then_do (guarded_evaluation c runner)
             (\<lambda>fl. case fl of Returned \<Rightarrow> ret () | Reached_restore \<Rightarrow> restore_history c runner loc) w1"
    using enter by (simp add: do_evaluate_def then_do_def)
  show ?thesis
  proof (cases "is_parallel c (heap w) model")
    case True
    obtain ph sh where
      ph: "getattrs (heap w) runner [''model'', ''module'', ''pts_bbox_head''] = Inr (PRef ph)"
      and sh: "getattrs (heap w) runner [''ema_model'', ''ema_model'', ''module'', ''pts_bbox_head'']
             = Inr (PRef sh)"
      and w1: "w1 = w\<lparr>heap := put_attr (put_attr (heap w) ph ''history_occ'' PNone) sh ''history_occ'' PNone\<rparr>"
      using save_and_clear_parallel_D [OF rec model True enter] by blast
    have h1: "heap w1 = put_attr (put_attr (heap w) ph ''history_occ'' PNone) sh ''history_occ'' PNone"
      using w1 by simp
    have a: "getattrs (heap w1) runner ([''model'', ''module'', ''pts_bbox_head''] @ [''history_occ'']) = Inr PNone"
      by (rule cleared_reads_None [OF ph _ h1]) simp_all
    have b: "getattrs (heap w1) runner
               ([''ema_model'', ''ema_model'', ''module'', ''pts_bbox_head''] @ [''history_occ'']) = Inr PNone"
      by (rule cleared_reads_None [OF sh _ h1]) simp_all
    have s: "same_on (- {''history_occ''}) (heap w) (heap w1)"
      unfolding h1 by (intro same_on_trans [OF same_on_put_attr same_on_put_attr]) simp_all
    show ?thesis
      using True a b s cont w1 by (simp add: primary_head_path_def shadow_head_path_def)
  next
    case False
    obtain ph sh where
      ph: "getattrs (heap w) runner [''model'', ''pts_bbox_head''] = Inr (PRef ph)"
      and sh: "getattrs (heap w) runner [''ema_model'', ''ema_model'', ''pts_bbox_head''] = Inr (PRef sh)"
      and w1: "w1 = w\<lparr>heap := put_attr (put_attr (heap w) sh ''history_occ'' PNone) ph ''history_occ'' PNone\<rparr>"
      using save_and_clear_plain_D [OF rec model False enter] by blast
    have h1: "heap w1 = put_attr (put_attr (heap w) sh ''history_occ'' PNone) ph ''history_occ'' PNone"
      using w1 by simp
    have a: "getattrs (heap w1) runner ([''model'', ''pts_bbox_head''] @ [''history_occ'']) = Inr PNone"
      by (rule cleared_reads_None [OF ph _ h1]) simp_all
    have b: "getattrs (heap w1) runner
               ([''ema_model'', ''ema_model'', ''pts_bbox_head''] @ [''history_occ'']) = Inr PNone"
      by (rule cleared_reads_None [OF sh _ h1]) simp_all
    have s: "same_on (- {''history_occ''}) (heap w) (heap w1)"
      unfolding h1 by (intro same_on_trans [OF same_on_put_attr same_on_put_attr]) simp_all
    show ?thesis
      using False a b s cont w1 by (simp add: primary_head_path_def shadow_head_path_def)
  qed
qed


text \<open>
  The statement on the example store, where the snapshot holds the four tensors.
\<close>

theorem history_occ_cleared_on_entry_witness:
  "recognized (heap example_world) (PRef 0) = Inr True \<and>
   getattr (heap example_world) (PRef 0) ''model'' = Inr (PRef 12) \<and>
   is_parallel (example_collab True (Inr (PList [])) (Inr (PFloat 1))) (heap example_world) (PRef 12) \<and>
   fst (save_and_clear_history (example_collab True (Inr (PList [])) (Inr (PFloat 1))) (PRef 0)
          example_world)
     = Inr \<lparr>history_occ = Some (PTensor [1, 2]), history_seq_ids = Some (PTensor [3]),
            history_forward_augs = Some (PTensor [4]), history_sweep_time = Some (PTensor [5])\<rparr> \<and>
   getattrs (heap (snd (save_and_clear_history (example_collab True (Inr (PList [])) (Inr (PFloat 1)))
       (PRef 0) example_world))) (PRef 0)
       [''model'', ''module'', ''pts_bbox_head'', ''history_occ''] = Inr PNone \<and>
   getattrs (heap (snd (save_and_clear_history (example_collab True (Inr (PList [])) (Inr (PFloat 1)))
       (PRef 0) example_world))) (PRef 0)
       [''ema_model'', ''ema_model'', ''module'', ''pts_bbox_head'', ''history_occ''] = Inr PNone"
proof -
  let ?c = "example_collab True (Inr (PList [])) (Inr (PFloat 1))"
  let ?loc = "\<lparr>history_occ = Some (PTensor [1, 2]), history_seq_ids = Some (PTensor [3]),
               history_forward_augs = Some (PTensor [4]), history_sweep_time = Some (PTensor [5])\<rparr>"
  have rec: "recognized (heap example_world) (PRef 0) = Inr True"
    by (simp add: recognized_def example_defs)
  have model: "getattr (heap example_world) (PRef 0) ''model'' = Inr (PRef 12)"
    by (simp add: example_defs)
  have par: "is_parallel ?c (heap example_world) (PRef 12)"
    by (simp add: example_defs)
  have run: "fst (save_and_clear_history ?c (PRef 0) example_world) = Inr ?loc"
    by (simp add: prog_defs hook_defs example_defs)
  then have enter: "save_and_clear_history ?c (PRef 0) example_world
      = (Inr ?loc, snd (save_and_clear_history ?c (PRef 0) example_world))"
    by (metis prod.collapse)
  note concl = history_occ_cleared_on_entry [OF rec model enter]
  show ?thesis
    using rec model par run concl by (simp add: primary_head_path_def shadow_head_path_def)
qed

text \<open>
  Claim C6 as written has all four history buffers cleared on both models. On the
  example store the sequence ids, the forward augmentations and the sweep times of the
  primary head, and the sequence ids of the shadow head, hold their tensors after the
  entry step.
\<close>

theorem other_buffers_not_cleared_counterexample:
  "recognized (heap example_world) (PRef 0) = Inr True \<and>
   getattrs (heap (snd (save_and_clear_history (example_collab True (Inr (PList [])) (Inr (PFloat 1)))
       (PRef 0) example_world))) (PRef 0)
       [''model'', ''module'', ''pts_bbox_head'', ''history_seq_ids''] = Inr (PTensor [3]) \<and>
   getattrs (heap (snd (save_and_clear_history (example_collab True (Inr (PList [])) (Inr (PFloat 1)))
       (PRef 0) example_world))) (PRef 0)
       [''model'', ''module'', ''pts_bbox_head'', ''history_forward_augs''] = Inr (PTensor [4]) \<and>
   getattrs (heap (snd (save_and_clear_history (example_collab True (Inr (PList [])) (Inr (PFloat 1)))
       (PRef 0) example_world))) (PRef 0)
       [''model'', ''module'', ''pts_bbox_head'', ''history_sweep_time''] = Inr (PTensor [5]) \<and>
   getattrs (heap (snd (save_and_clear_history (example_collab True (Inr (PList [])) (Inr (PFloat 1)))
       (PRef 0) example_world))) (PRef 0)
       [''ema_model'', ''ema_model'', ''module'', ''pts_bbox_head'', ''history_seq_ids'']
     = Inr (PTensor [7])"
  by (simp add: prog_defs hook_defs example_defs)

subsection \<open>Models that are not recognized\<close>

lemma getattrs_error: "getattrs h v path = Inl e \<Longrightarrow> e = AttributeError"
proof (induction path arbitrary: v)
  case Nil
  then show ?case by simp
next
  case (Cons n ns)
  show ?case
  proof (cases "getattr h v n")
    case (Inl e')
    then have "e' = AttributeError" by (cases v) (auto split: option.splits)
    then show ?thesis using Cons.prems Inl by simp
  next
    case (Inr v')
    then show ?thesis using Cons by simp
  qed
qed

lemma unrecognized_skips:
  assumes "recognized (heap w) runner = Inr False"
  shows "save_and_clear_history c runner w = (Inr unbound, w)"
    and "restore_history c runner loc w = (Inr (), w)"
  using assms by (simp_all add: save_and_clear_history_def restore_history_def prog_defs)

text \<open>
  Claim C7, as amended. When \<open>runner.model.module\<close> exists and either its class name is
  not \<open>TemporalOcc\<close> or the comparison of its \<open>pts_bbox_head.use_history_flag\<close> with
  \<open>True\<close> is false, the entry step and the exit step are no-ops: no exception, state
  and locals untouched. The step does not guard its attribute reads: for a
  \<open>TemporalOcc\<close> module whose \<open>pts_bbox_head.use_history_flag\<close> cannot be read, and for a
  recognized parallel model whose head has no \<open>history_occ\<close>, the entry step raises
  \<open>AttributeError\<close> with the state untouched.
\<close>

theorem isolation_skipped_when_not_recognized:
  "(\<forall>m. getattrs (heap w) runner [''model'', ''module''] = Inr m \<and>
        (class_of (heap w) m \<noteq> ''TemporalOcc'' \<or>
         (\<exists>flag. getattrs (heap w) runner
                    [''model'', ''module'', ''pts_bbox_head'', ''use_history_flag''] = Inr flag \<and>
                  py_eq_num flag 1 = Inr False)) \<longrightarrow>
        save_and_clear_history c runner w = (Inr unbound, w) \<and>
        restore_history c runner loc w = (Inr (), w)) \<and>
   (\<forall>m. getattrs (heap w) runner [''model'', ''module''] = Inr m \<and>
        class_of (heap w) m = ''TemporalOcc'' \<and>
        isl (getattrs (heap w) runner
               [''model'', ''module'', ''pts_bbox_head'', ''use_history_flag'']) \<longrightarrow>
        save_and_clear_history c runner w = (Inl AttributeError, w)) \<and>
   (\<forall>model. recognized (heap w) runner = Inr True \<and>
        getattr (heap w) runner ''model'' = Inr model \<and> is_parallel c (heap w) model \<and>
        isl (getattrs (heap w) runner
               [''model'', ''module'', ''pts_bbox_head'', ''history_occ'']) \<longrightarrow>
        save_and_clear_history c runner w = (Inl AttributeError, w))"
proof (intro conjI impI allI)
  fix m
  assume a: "getattrs (heap w) runner [''model'', ''module''] = Inr m \<and>
        (class_of (heap w) m \<noteq> ''TemporalOcc'' \<or>
         (\<exists>flag. getattrs (heap w) runner
                    [''model'', ''module'', ''pts_bbox_head'', ''use_history_flag''] = Inr flag \<and>
                  py_eq_num flag 1 = Inr False))"
  then have r: "recognized (heap w) runner = Inr False"
    by (auto simp: recognized_def simp del: getattrs.simps)
  show "save_and_clear_history c runner w = (Inr unbound, w)"
    by (rule unrecognized_skips(1) [OF r])
  show "restore_history c runner loc w = (Inr (), w)"
    by (rule unrecognized_skips(2) [OF r])
next
  fix m
  assume a: "getattrs (heap w) runner [''model'', ''module''] = Inr m \<and>
        class_of (heap w) m = ''TemporalOcc'' \<and>
        isl (getattrs (heap w) runner
               [''model'', ''module'', ''pts_bbox_head'', ''use_history_flag''])"
  then obtain e where e: "getattrs (heap w) runner
               [''model'', ''module'', ''pts_bbox_head'', ''use_history_flag''] = Inl e"
    by (cases "getattrs (heap w) runner
               [''model'', ''module'', ''pts_bbox_head'', ''use_history_flag'']") auto
  then have "e = AttributeError" by (rule getattrs_error)
  then have "recognized (heap w) runner = Inl AttributeError"
    using a e by (simp add: recognized_def del: getattrs.simps)
  then show "save_and_clear_history c runner w = (Inl AttributeError, w)"
    by (simp add: save_and_clear_history_def prog_defs)
next
  fix model
  assume a: "recognized (heap w) runner = Inr True \<and>
        getattr (heap w) runner ''model'' = Inr model \<and> is_parallel c (heap w) model \<and>
        isl (getattrs (heap w) runner
               [''model'', ''module'', ''pts_bbox_head'', ''history_occ''])"
  then obtain e where e: "getattrs (heap w) runner
               [''model'', ''module'', ''pts_bbox_head'', ''history_occ''] = Inl e"
    by (cases "getattrs (heap w) runner
               [''model'', ''module'', ''pts_bbox_head'', ''history_occ'']") auto
  then have "e = AttributeError" by (rule getattrs_error)
  then have "take_snapshot runner w = (Inl AttributeError, w)"
    using e by (simp add: take_snapshot_def then_do_def reading_def del: getattrs.simps)
  then show "save_and_clear_history c runner w = (Inl AttributeError, w)"
    using a by (simp add: save_and_clear_history_def then_do_def reading_def
        del: getattrs.simps getattr.simps)
qed

lemma other_heaps_objects:
  "other_family_heap 0 = example_heap 0"
  "other_family_heap 12 = example_heap 12"
  "attrs (other_family_heap 2) = map_of [(''pts_bbox_head'', PRef 3)]"
  "class_name (other_family_heap 2) = ''BEVDet''"
  "headless_heap 0 = example_heap 0"
  "headless_heap 12 = example_heap 12"
  "attrs (headless_heap 2) = map_of []"
  "class_name (headless_heap 2) = ''TemporalOcc''"
  "bare_head_heap 0 = example_heap 0"
  "bare_head_heap 12 = example_heap 12"
  "bare_head_heap 2 = example_heap 2"
  "attrs (bare_head_heap 3) = map_of [(''use_history_flag'', PBool True)]"
  by (simp_all add: other_family_heap_def headless_heap_def bare_head_heap_def mk_obj_def)

text \<open>
  The statement on the store with a model of another family, on the store whose module
  has no head, and on the store whose head has no history fields.
\<close>

theorem isolation_skipped_when_not_recognized_witness:
  "getattrs other_family_heap (PRef 0) [''model'', ''module''] = Inr (PRef 2) \<and>
   class_of other_family_heap (PRef 2) \<noteq> ''TemporalOcc'' \<and>
   save_and_clear_history (example_collab True (Inr (PList [])) (Inr (PFloat 1))) (PRef 0)
     (example_world\<lparr>heap := other_family_heap\<rparr>) = (Inr unbound, example_world\<lparr>heap := other_family_heap\<rparr>) \<and>
   restore_history (example_collab True (Inr (PList [])) (Inr (PFloat 1))) (PRef 0) unbound
     (example_world\<lparr>heap := other_family_heap\<rparr>) = (Inr (), example_world\<lparr>heap := other_family_heap\<rparr>) \<and>
   getattrs headless_heap (PRef 0) [''model'', ''module''] = Inr (PRef 2) \<and>
   class_of headless_heap (PRef 2) = ''TemporalOcc'' \<and>
   isl (getattrs headless_heap (PRef 0)
          [''model'', ''module'', ''pts_bbox_head'', ''use_history_flag'']) \<and>
   save_and_clear_history (example_collab True (Inr (PList [])) (Inr (PFloat 1))) (PRef 0)
     (example_world\<lparr>heap := headless_heap\<rparr>) = (Inl AttributeError, example_world\<lparr>heap := headless_heap\<rparr>) \<and>
   recognized bare_head_heap (PRef 0) = Inr True \<and>
   isl (getattrs bare_head_heap (PRef 0) [''model'', ''module'', ''pts_bbox_head'', ''history_occ'']) \<and>
   save_and_clear_history (example_collab True (Inr (PList [])) (Inr (PFloat 1))) (PRef 0)
     (example_world\<lparr>heap := bare_head_heap\<rparr>) = (Inl AttributeError, example_world\<lparr>heap := bare_head_heap\<rparr>)"
proof -
  let ?c = "example_collab True (Inr (PList [])) (Inr (PFloat 1))"
  let ?w = "example_world\<lparr>heap := other_family_heap\<rparr>"
  let ?u = "example_world\<lparr>heap := headless_heap\<rparr>"
  let ?v = "example_world\<lparr>heap := bare_head_heap\<rparr>"
  have a: "getattrs (heap ?w) (PRef 0) [''model'', ''module''] = Inr (PRef 2)"
    by (simp add: other_heaps_objects example_defs)
  have b: "class_of (heap ?w) (PRef 2) \<noteq> ''TemporalOcc''"
    by (simp add: other_heaps_objects)
  have u1: "getattrs (heap ?u) (PRef 0) [''model'', ''module''] = Inr (PRef 2)"
    by (simp add: other_heaps_objects example_defs)
  have u2: "class_of (heap ?u) (PRef 2) = ''TemporalOcc''"
    by (simp add: other_heaps_objects)
  have u3: "isl (getattrs (heap ?u) (PRef 0)
                   [''model'', ''module'', ''pts_bbox_head'', ''use_history_flag''])"
    by (simp add: other_heaps_objects example_defs)
  have v1: "recognized (heap ?v) (PRef 0) = Inr True"
    by (simp add: recognized_def other_heaps_objects example_defs)
  have v2: "getattr (heap ?v) (PRef 0) ''model'' = Inr (PRef 12)"
    by (simp add: other_heaps_objects example_defs)
  have v3: "is_parallel ?c (heap ?v) (PRef 12)"
    by (simp add: other_heaps_objects example_defs)
  have v4: "isl (getattrs (heap ?v) (PRef 0) [''model'', ''module'', ''pts_bbox_head'', ''history_occ''])"
    by (simp add: other_heaps_objects example_defs)
  note t1 = isolation_skipped_when_not_recognized [of ?w "PRef 0" ?c unbound]
  note t2 = isolation_skipped_when_not_recognized [of ?u "PRef 0" ?c unbound]
  note t3 = isolation_skipped_when_not_recognized [of ?v "PRef 0" ?c unbound]
  have r1: "save_and_clear_history ?c (PRef 0) ?w = (Inr unbound, ?w) \<and>
            restore_history ?c (PRef 0) unbound ?w = (Inr (), ?w)"
    using t1 a b by blast
  have r2: "save_and_clear_history ?c (PRef 0) ?u = (Inl AttributeError, ?u)"
    using t2 u1 u2 u3 by blast
  have r3: "save_and_clear_history ?c (PRef 0) ?v = (Inl AttributeError, ?v)"
    using t3 v1 v2 v3 v4 by blast
  show ?thesis
    using a b u1 u2 u3 v1 v4 r1 r2 r3 by simp
qed

text \<open>
  Claim C7 as written has the isolation step skipped, without an exception, for a model
  that lacks \<open>pts_bbox_head\<close> or the history fields. On the store whose \<open>TemporalOcc\<close>
  module has no head, and on the store whose recognized head has no history fields, the
  entry step and with it \<open>_do_evaluate\<close> raise \<open>AttributeError\<close>.
\<close>

theorem isolation_raises_counterexample:
  "getattrs headless_heap (PRef 0) [''model'', ''module''] = Inr (PRef 2) \<and>
   class_of headless_heap (PRef 2) = ''TemporalOcc'' \<and>
   getattr headless_heap (PRef 2) ''pts_bbox_head'' = Inl AttributeError \<and>
   fst (do_evaluate (example_collab True (Inr (PList [])) (Inr (PFloat 1))) (PRef 0)
     (example_world\<lparr>heap := headless_heap\<rparr>)) = Inl AttributeError \<and>
   getattrs bare_head_heap (PRef 0) [''model'', ''module'', ''pts_bbox_head'', ''use_history_flag'']
     = Inr (PBool True) \<and>
   getattrs bare_head_heap (PRef 0) [''model'', ''module'', ''pts_bbox_head'', ''history_occ'']
     = Inl AttributeError \<and>
   fst (do_evaluate (example_collab True (Inr (PList [])) (Inr (PFloat 1))) (PRef 0)
     (example_world\<lparr>heap := bare_head_heap\<rparr>)) = Inl AttributeError"
  by (simp add: prog_defs hook_defs other_heaps_objects example_defs)

subsection \<open>The path of a model that is not parallel\<close>

lemma restore_history_plain_D:
  assumes "recognized (heap w) runner = Inr True"
    and "getattr (heap w) runner ''model'' = Inr model"
    and "\<not> is_parallel c (heap w) model"
    and "restore_history c runner loc w = (Inr u, w')"
  shows "\<exists>ph sh.
           getattrs (heap w) runner [''model'', ''pts_bbox_head''] = Inr (PRef ph) \<and>
           getattrs (heap w) runner [''ema_model'', ''ema_model'', ''pts_bbox_head''] = Inr (PRef sh) \<and>
           w' = w\<lparr>heap := put_attr (put_attr (heap w) ph ''history_occ'' PNone) sh ''history_occ'' PNone\<rparr>"
proof -
  let ?p = "[''model'', ''pts_bbox_head'']"
  let ?s = "[''ema_model'', ''ema_model'', ''pts_bbox_head'']"
  have run: "then_do (writing (\<lambda>h. set_path h runner ?p ''history_occ'' PNone)) (\<lambda>_.
             writing (\<lambda>h. set_path h runner ?s ''history_occ'' PNone)) w = (Inr u, w')"
    using assms
    by (simp add: restore_history_def then_do_def reading_def del: getattrs.simps getattr.simps)
  obtain u1 wb where wr1: "writing (\<lambda>h. set_path h runner ?p ''history_occ'' PNone) w = (Inr u1, wb)"
    and wr2: "writing (\<lambda>h. set_path h runner ?s ''history_occ'' PNone) wb = (Inr u, w')"
    using then_do_InrD [OF run] by blast
  obtain h1 where s1: "set_path (heap w) runner ?p ''history_occ'' PNone = Inr h1"
    and wb: "wb = w\<lparr>heap := h1\<rparr>"
    using writing_InrD [OF wr1] by blast
  obtain h2 where s2: "set_path h1 runner ?s ''history_occ'' PNone = Inr h2"
    and w': "w' = wb\<lparr>heap := h2\<rparr>"
    using writing_InrD [OF wr2] unfolding wb by auto
  obtain ph where ph: "getattrs (heap w) runner ?p = Inr (PRef ph)"
    and h1: "h1 = put_attr (heap w) ph ''history_occ'' PNone"
    using set_path_InrD [OF s1] by blast
  obtain sh where sh: "getattrs h1 runner ?s = Inr (PRef sh)"
    and h2: "h2 = put_attr h1 sh ''history_occ'' PNone"
    using set_path_InrD [OF s2] by blast
  have "getattrs (heap w) runner ?s = Inr (PRef sh)"
    using sh unfolding h1 by (simp add: getattrs_put_attr del: getattrs.simps)
  then show ?thesis using ph h1 h2 w' wb by auto
qed

lemma guarded_evaluation_Returned:
  assumes "guarded_evaluation c runner w = (Inr Returned, w2)"
  shows "w2 = snd (broadcast_bn c runner w)"
  using assms
  by (auto simp: guarded_evaluation_def then_do_def ret_def split: prod.splits sum.splits if_splits)

lemma same_on_broadcast_bn:
  "same_on (- {''running_var'', ''running_mean''}) (heap w) (heap (snd (broadcast_bn c runner w)))"
proof -
  let ?N = "- {''running_var'', ''running_mean''}"
  have "frames (\<lambda>w w'. same_on ?N (heap w) (heap w')) (broadcast_bn c runner)"
  proof (rule broadcast_bn_frames [of "same_on ?N"])
    show "same_on ?N h h" for h by (rule same_on_refl)
    show "same_on ?N h1 h2 \<Longrightarrow> same_on ?N h2 h3 \<Longrightarrow> same_on ?N h1 h3" for h1 h2 h3
      by (rule same_on_trans)
    show "setattr h v ''running_var'' x = Inr h' \<Longrightarrow> same_on ?N h h'" for h v x h'
      by (erule same_on_setattr) simp
    show "setattr h v ''running_mean'' x = Inr h' \<Longrightarrow> same_on ?N h h'" for h v x h'
      by (erule same_on_setattr) simp
  qed
  then show ?thesis by (simp add: frames_def)
qed

text \<open>
  Claim C10. For a recognized model that \<open>is_parallel\<close> does not accept, with framework
  calls that leave classes and links as they are: whenever \<open>_do_evaluate\<close> completes,
  whether through the return of line 88 or through line 126, the entry step has bound
  none of the snapshot locals, and \<open>history_occ\<close> is \<open>None\<close> on the primary head
  \<open>runner.model.pts_bbox_head\<close> and on the shadow head
  \<open>runner.ema_model.ema_model.pts_bbox_head\<close>, whatever they held before.
\<close>

theorem plain_path_leaves_history_cleared:
  assumes rec: "recognized (heap w) runner = Inr True"
    and model: "getattr (heap w) runner ''model'' = Inr model"
    and plain: "\<forall>h. same_on link_names (heap w) h \<longrightarrow> \<not> is_parallel c h model"
    and links: "calls_respect (same_on link_names) c"
    and fin: "do_evaluate c runner w = (Inr (), w')"
  shows "fst (save_and_clear_history c runner w) = Inr unbound \<and>
         getattrs (heap w') runner [''model'', ''pts_bbox_head'', ''history_occ''] = Inr PNone \<and>
         getattrs (heap w') runner [''ema_model'', ''ema_model'', ''pts_bbox_head'', ''history_occ'']
           = Inr PNone"
proof -
  let ?p = "[''model'', ''pts_bbox_head'']"
  let ?s = "[''ema_model'', ''ema_model'', ''pts_bbox_head'']"
  have plain0: "\<not> is_parallel c (heap w) model" using plain same_on_refl by blast
  obtain loc w1 where enter: "save_and_clear_history c runner w = (Inr loc, w1)"
    and rest: "then_do (guarded_evaluation c runner)
                 (\<lambda>fl. case fl of Returned \<Rightarrow> ret () | Reached_restore \<Rightarrow> restore_history c runner loc) w1
               = (Inr (), w')"
    using then_do_InrD [OF fin [unfolded do_evaluate_def]] by blast
  obtain fl w2 where g: "guarded_evaluation c runner w1 = (Inr fl, w2)"
    and tail: "(case fl of Returned \<Rightarrow> ret () | Reached_restore \<Rightarrow> restore_history c runner loc) w2
               = (Inr (), w')"
    using then_do_InrD [OF rest] by blast
  obtain ph sh where loc: "loc = unbound"
    and ph: "getattrs (heap w) runner ?p = Inr (PRef ph)"
    and sh: "getattrs (heap w) runner ?s = Inr (PRef sh)"
    and w1: "w1 = w\<lparr>heap := put_attr (put_attr (heap w) sh ''history_occ'' PNone) ph ''history_occ'' PNone\<rparr>"
    using save_and_clear_plain_D [OF rec model plain0 enter] by blast
  have h1: "heap w1 = put_attr (put_attr (heap w) sh ''history_occ'' PNone) ph ''history_occ'' PNone"
    using w1 by simp
  have first: "fst (save_and_clear_history c runner w) = Inr unbound"
    using enter loc by simp
  have l01: "same_on link_names (heap w) (heap w1)"
    unfolding h1
    by (intro same_on_trans [OF same_on_put_attr same_on_put_attr]) (simp_all add: link_names_def)
  show ?thesis
  proof (cases fl)
    case Returned
    have w': "w' = w2" using tail Returned ret_InrD [of "()" w2 "()" w'] by simp
    have w2: "w2 = snd (broadcast_bn c runner w1)"
      using guarded_evaluation_Returned g Returned by blast
    have s12: "same_on (- {''running_var'', ''running_mean''}) (heap w1) (heap w2)"
      unfolding w2 by (rule same_on_broadcast_bn)
    have a1: "getattrs (heap w1) runner (?p @ [''history_occ'']) = Inr PNone"
      by (rule cleared_reads_None [OF ph _ h1]) simp_all
    have b1: "getattrs (heap w1) runner (?s @ [''history_occ'']) = Inr PNone"
      by (rule cleared_reads_None [OF sh _ h1]) simp_all
    have a2: "getattrs (heap w2) runner (?p @ [''history_occ'']) = Inr PNone"
      using same_on_getattrs [OF s12, of "?p @ [''history_occ'']" runner] a1
      by (simp del: getattrs.simps)
    have b2: "getattrs (heap w2) runner (?s @ [''history_occ'']) = Inr PNone"
      using same_on_getattrs [OF s12, of "?s @ [''history_occ'']" runner] b1
      by (simp del: getattrs.simps)
    show ?thesis using first a2 b2 w' by simp
  next
    case Reached_restore
    have rs: "restore_history c runner loc w2 = (Inr (), w')"
      using tail Reached_restore by simp
    have l12: "same_on link_names (heap w1) (heap w2)"
      using same_on_links_guarded [OF links, of w1 runner] g by simp
    have l02: "same_on link_names (heap w) (heap w2)"
      by (rule same_on_trans [OF l01 l12])
    have rec2: "recognized (heap w2) runner = Inr True"
      using same_on_recognized [OF l02, of runner] rec by simp
    have model2: "getattr (heap w2) runner ''model'' = Inr model"
      using same_on_getattr [OF l02, of "''model''" runner] model by (simp add: link_names_def)
    have plain2: "\<not> is_parallel c (heap w2) model" using plain l02 by blast
    obtain ph2 sh2 where ph2: "getattrs (heap w2) runner ?p = Inr (PRef ph2)"
      and sh2: "getattrs (heap w2) runner ?s = Inr (PRef sh2)"
      and w': "w' = w2\<lparr>heap := put_attr (put_attr (heap w2) ph2 ''history_occ'' PNone) sh2 ''history_occ'' PNone\<rparr>"
      using restore_history_plain_D [OF rec2 model2 plain2 rs] by blast
    have h': "heap w' = put_attr (put_attr (heap w2) ph2 ''history_occ'' PNone) sh2 ''history_occ'' PNone"
      using w' by simp
    have a: "getattrs (heap w') runner (?p @ [''history_occ'']) = Inr PNone"
      by (rule cleared_reads_None [OF ph2 _ h']) simp_all
    have b: "getattrs (heap w') runner (?s @ [''history_occ'']) = Inr PNone"
      by (rule cleared_reads_None [OF sh2 _ h']) simp_all
    show ?thesis using first a b by simp
  qed
qed


lemma plain_heap_objects:
  "plain_heap 0 = example_heap 0"
  "attrs (plain_heap 12) = map_of [(''module'', PRef 2), (''pts_bbox_head'', PRef 3)]"
  "class_name (plain_heap 12) = ''Wrapper''"
  "plain_heap 2 = example_heap 2"
  "plain_heap 3 = example_heap 3"
  "plain_heap 4 = example_heap 4"
  "attrs (plain_heap 5) = map_of [(''module'', PRef 6), (''pts_bbox_head'', PRef 7)]"
  "plain_heap 7 = example_heap 7"
  "plain_heap 8 = example_heap 8"
  "plain_heap 11 = example_heap 11"
  by (simp_all add: plain_heap_def mk_obj_def)

text \<open>
  The statement on the store whose wrappers are not parallel ones; the primary head
  held a tensor before the call.
\<close>

theorem plain_path_leaves_history_cleared_witness:
  "recognized plain_heap (PRef 0) = Inr True \<and>
   getattr plain_heap (PRef 0) ''model'' = Inr (PRef 12) \<and>
   \<not> is_parallel (example_collab True (Inr (PList [])) (Inr (PFloat 1))) plain_heap (PRef 12) \<and>
   getattrs plain_heap (PRef 0) [''model'', ''pts_bbox_head'', ''history_occ''] = Inr (PTensor [1, 2]) \<and>
   fst (do_evaluate (example_collab True (Inr (PList [])) (Inr (PFloat 1))) (PRef 0)
          (example_world\<lparr>heap := plain_heap\<rparr>)) = Inr () \<and>
   fst (save_and_clear_history (example_collab True (Inr (PList [])) (Inr (PFloat 1))) (PRef 0)
          (example_world\<lparr>heap := plain_heap\<rparr>)) = Inr unbound \<and>
   getattrs (heap (snd (do_evaluate (example_collab True (Inr (PList [])) (Inr (PFloat 1))) (PRef 0)
      (example_world\<lparr>heap := plain_heap\<rparr>)))) (PRef 0)
      [''model'', ''pts_bbox_head'', ''history_occ''] = Inr PNone \<and>
   getattrs (heap (snd (do_evaluate (example_collab True (Inr (PList [])) (Inr (PFloat 1))) (PRef 0)
      (example_world\<lparr>heap := plain_heap\<rparr>)))) (PRef 0)
      [''ema_model'', ''ema_model'', ''pts_bbox_head'', ''history_occ''] = Inr PNone"
proof -
  let ?c = "example_collab True (Inr (PList [])) (Inr (PFloat 1))"
  let ?w = "example_world\<lparr>heap := plain_heap\<rparr>"
  have rec: "recognized (heap ?w) (PRef 0) = Inr True"
    by (simp add: recognized_def plain_heap_objects example_defs)
  have model: "getattr (heap ?w) (PRef 0) ''model'' = Inr (PRef 12)"
    by (simp add: plain_heap_objects example_defs)
  have plain: "\<forall>h. same_on link_names (heap ?w) h \<longrightarrow> \<not> is_parallel ?c h (PRef 12)"
    by (simp add: same_on_def plain_heap_objects example_collab_def)
  have plain0: "\<not> is_parallel ?c plain_heap (PRef 12)"
    by (simp add: plain_heap_objects example_collab_def)
  have before: "getattrs plain_heap (PRef 0) [''model'', ''pts_bbox_head'', ''history_occ'']
                  = Inr (PTensor [1, 2])"
    by (simp add: plain_heap_objects example_defs)
  have links: "calls_respect (same_on link_names) ?c"
    by (simp add: calls_respect_def example_collab_def same_on_refl same_on_put_attr link_names_def)
  have run: "fst (do_evaluate ?c (PRef 0) ?w) = Inr ()"
    by (simp add: prog_defs hook_defs plain_heap_objects example_defs)
  then have fin: "do_evaluate ?c (PRef 0) ?w = (Inr (), snd (do_evaluate ?c (PRef 0) ?w))"
    by (metis prod.collapse)
  note concl = plain_path_leaves_history_cleared [OF rec model plain links fin]
  show ?thesis
    using rec model plain0 before run concl by simp
qed

subsection \<open>A call that the trigger declines\<close>








subsection \<open>An exception in the guarded region\<close>

text \<open>
  Claim C1, as amended. For a recognized parallel model with a captured snapshot, when
  the guarded region raises \<open>e\<close>, \<open>_do_evaluate\<close> raises \<open>e\<close> and its final state is the
  state at the raise: lines 113 to 126 do not run. With framework calls that do not
  write \<open>history_occ\<close> of the primary head, that attribute is \<open>None\<close> on this exit.
\<close>

theorem exception_skips_restore:
  assumes rec: "recognized (heap w) runner = Inr True"
    and model: "getattr (heap w) runner ''model'' = Inr model"
    and par: "is_parallel c (heap w) model"
    and prim: "getattrs (heap w) runner [''model'', ''module'', ''pts_bbox_head''] = Inr (PRef ph)"
    and shadow: "getattrs (heap w) runner [''ema_model'', ''ema_model'', ''module'', ''pts_bbox_head'']
                   = Inr (PRef sh)"
    and occ: "getattr (heap w) (PRef ph) ''history_occ'' = Inr (PTensor t1)"
    and seq: "getattr (heap w) (PRef ph) ''history_seq_ids'' = Inr (PTensor t2)"
    and aug: "getattr (heap w) (PRef ph) ''history_forward_augs'' = Inr (PTensor t3)"
    and swp: "getattr (heap w) (PRef ph) ''history_sweep_time'' = Inr (PTensor t4)"
    and keeps: "calls_respect (\<lambda>h h'. attrs (h' ph) ''history_occ'' = attrs (h ph) ''history_occ'') c"
    and raises: "fst (guarded_evaluation c runner (snd (save_and_clear_history c runner w))) = Inl e"
  shows "fst (do_evaluate c runner w) = Inl e \<and>
         snd (do_evaluate c runner w)
           = snd (guarded_evaluation c runner (snd (save_and_clear_history c runner w))) \<and>
         getattr (heap (snd (do_evaluate c runner w))) (PRef ph) ''history_occ'' = Inr PNone"
proof -
  let ?loc = "\<lparr>history_occ = Some (PTensor t1), history_seq_ids = Some (PTensor t2),
               history_forward_augs = Some (PTensor t3), history_sweep_time = Some (PTensor t4)\<rparr>"
  let ?h1 = "put_attr (put_attr (heap w) ph ''history_occ'' PNone) sh ''history_occ'' PNone"
  let ?w1 = "w\<lparr>heap := ?h1\<rparr>"
  let ?Q = "\<lambda>h h'. attrs (h' ph) ''history_occ'' = attrs (h ph) ''history_occ''"
  have enter: "save_and_clear_history c runner w = (Inr ?loc, ?w1)"
    by (rule save_and_clear_parallel [OF rec model par
          take_snapshot_tensors [OF prim occ seq aug swp] prim shadow])
  obtain w2 where g: "guarded_evaluation c runner ?w1 = (Inl e, w2)"
    using raises enter by (cases "guarded_evaluation c runner ?w1") simp
  have run: "do_evaluate c runner w = (Inl e, w2)"
    using enter g by (simp add: do_evaluate_def then_do_def)
  have "frames (\<lambda>w w'. ?Q (heap w) (heap w')) (guarded_evaluation c runner)"
  proof (rule guarded_evaluation_frames [of ?Q, OF _ _ _ _ _ keeps])
    show "setattr h v ''running_var'' x = Inr h' \<Longrightarrow> ?Q h h'" for h v x h'
      by (cases v) auto
    show "setattr h v ''running_mean'' x = Inr h' \<Longrightarrow> ?Q h h'" for h v x h'
      by (cases v) auto
    show "setitem h v k x = Inr h' \<Longrightarrow> ?Q h h'" for h v k x h'
      by (cases v) auto
  qed simp_all
  then have "attrs (heap w2 ph) ''history_occ'' = attrs (?h1 ph) ''history_occ''"
    using g by (auto simp: frames_def dest: spec [of _ ?w1])
  then have "getattr (heap w2) (PRef ph) ''history_occ'' = Inr PNone"
    by simp
  then show ?thesis using run enter g by simp
qed

text \<open>
  The statement on the example store with a test runner that raises.
\<close>

theorem exception_skips_restore_witness:
  "recognized (heap example_world) (PRef 0) = Inr True \<and>
   is_parallel (example_collab True (Inl (External ''test runner failed'')) (Inr (PFloat 1)))
     (heap example_world) (PRef 12) \<and>
   getattrs (heap example_world) (PRef 0) [''model'', ''module'', ''pts_bbox_head''] = Inr (PRef 3) \<and>
   getattr (heap example_world) (PRef 3) ''history_occ'' = Inr (PTensor [1, 2]) \<and>
   fst (guarded_evaluation (example_collab True (Inl (External ''test runner failed'')) (Inr (PFloat 1)))
          (PRef 0)
          (snd (save_and_clear_history
             (example_collab True (Inl (External ''test runner failed'')) (Inr (PFloat 1)))
             (PRef 0) example_world)))
     = Inl (External ''test runner failed'') \<and>
   fst (do_evaluate (example_collab True (Inl (External ''test runner failed'')) (Inr (PFloat 1)))
          (PRef 0) example_world) = Inl (External ''test runner failed'') \<and>
   getattr (heap (snd (do_evaluate
      (example_collab True (Inl (External ''test runner failed'')) (Inr (PFloat 1)))
      (PRef 0) example_world))) (PRef 3) ''history_occ'' = Inr PNone"
proof -
  let ?c = "example_collab True (Inl (External ''test runner failed'')) (Inr (PFloat 1))"
  let ?h = "heap example_world"
  have rec: "recognized ?h (PRef 0) = Inr True"
    by (simp add: recognized_def example_defs)
  have model: "getattr ?h (PRef 0) ''model'' = Inr (PRef 12)"
    by (simp add: example_defs)
  have par: "is_parallel ?c ?h (PRef 12)"
    by (simp add: example_defs)
  have prim: "getattrs ?h (PRef 0) [''model'', ''module'', ''pts_bbox_head''] = Inr (PRef 3)"
    by (simp add: example_defs)
  have shadow: "getattrs ?h (PRef 0) [''ema_model'', ''ema_model'', ''module'', ''pts_bbox_head'']
                  = Inr (PRef 7)"
    by (simp add: example_defs)
  have occ: "getattr ?h (PRef 3) ''history_occ'' = Inr (PTensor [1, 2])"
    and seq: "getattr ?h (PRef 3) ''history_seq_ids'' = Inr (PTensor [3])"
    and aug: "getattr ?h (PRef 3) ''history_forward_augs'' = Inr (PTensor [4])"
    and swp: "getattr ?h (PRef 3) ''history_sweep_time'' = Inr (PTensor [5])"
    by (simp_all add: example_defs)
  have keeps: "calls_respect (\<lambda>h h'. attrs (h' 3) ''history_occ'' = attrs (h 3) ''history_occ'') ?c"
    by (simp add: calls_respect_def example_collab_def)
  have raises: "fst (guarded_evaluation ?c (PRef 0) (snd (save_and_clear_history ?c (PRef 0) example_world)))
                  = Inl (External ''test runner failed'')"
    by (simp add: prog_defs hook_defs example_defs)
  note concl = exception_skips_restore
    [OF rec model par prim shadow occ seq aug swp keeps raises]
  show ?thesis
    using rec par prim occ raises concl by blast
qed

text \<open>
  Claim C1 as written has the primary buffers restored when the guarded region raises.
  On the example store, with a failing test runner and with a failing metric, the
  exception leaves \<open>_do_evaluate\<close> while \<open>history_occ\<close> of the primary head is \<open>None\<close>,
  not the tensor it held before the call.
\<close>

theorem exception_skips_restore_counterexample:
  "getattrs (heap example_world) (PRef 0) [''model'', ''module'', ''pts_bbox_head'', ''history_occ'']
     = Inr (PTensor [1, 2]) \<and>
   fst (do_evaluate (example_collab True (Inl (External ''test runner failed'')) (Inr (PFloat 1)))
          (PRef 0) example_world) = Inl (External ''test runner failed'') \<and>
   getattrs (heap (snd (do_evaluate
      (example_collab True (Inl (External ''test runner failed'')) (Inr (PFloat 1)))
      (PRef 0) example_world))) (PRef 0) [''model'', ''module'', ''pts_bbox_head'', ''history_occ'']
     = Inr PNone \<and>
   fst (do_evaluate (example_collab True (Inr (PList [])) (Inl (External ''metric failed'')))
          (PRef 0) example_world) = Inl (External ''metric failed'') \<and>
   getattrs (heap (snd (do_evaluate
      (example_collab True (Inr (PList [])) (Inl (External ''metric failed'')))
      (PRef 0) example_world))) (PRef 0) [''model'', ''module'', ''pts_bbox_head'', ''history_occ'']
     = Inr PNone"
  by (simp add: prog_defs hook_defs example_defs)

subsection \<open>The checkpoint of the best score\<close>

text \<open>
  Claim C8 at a failing input. On rank 0 with \<open>save_best\<close> set, a metric that returns the
  score 0.0 is evaluated, yet no checkpoint call follows: the condition of line 110
  takes the truth value of the score. With the score 1.0 the checkpoint call is made
  once, with that score.
\<close>

theorem zero_score_skips_checkpoint:
  "getattr (heap example_world) (PRef 0) ''rank'' = Inr (PInt 0) \<and>
   save_best (hook_of example_world) = PStr ''auto'' \<and>
   fst (do_evaluate (example_collab True (Inr (PList [])) (Inr (PFloat 0))) (PRef 0) example_world) = Inr () \<and>
   trace (snd (do_evaluate (example_collab True (Inr (PList [])) (Inr (PFloat 0))) (PRef 0) example_world))
     = [Broadcast (PTensor [1]) 0, Broadcast (PTensor [0]) 0,
        MultiGpuTest (PRef 5) (PRef 10) (PStr ''work/.eval_hook'') (PBool False),
        Print [CHR 0x0A], Evaluate (PList [])] \<and>
   trace (snd (do_evaluate (example_collab True (Inr (PList [])) (Inr (PFloat 1))) (PRef 0) example_world))
     = [Broadcast (PTensor [1]) 0, Broadcast (PTensor [0]) 0,
        MultiGpuTest (PRef 5) (PRef 10) (PStr ''work/.eval_hook'') (PBool False),
        Print [CHR 0x0A], Evaluate (PList []), SaveCkpt (PFloat 1)]"
  by (simp add: prog_defs hook_defs example_defs)

end
